theory Spec2Isabelle
  imports Main "HOL-Library.Multiset"
begin

section \<open>Go library functions the codec calls\<close>

text \<open>
  Go strings are byte sequences; they are modelled as \<open>string\<close> (a list of 8-bit
  \<open>char\<close>). The functions of this section are the parts of the Go standard library
  (\<open>strconv\<close>, \<open>strings\<close>, \<open>fmt\<close>, \<open>bufio\<close>) that the package calls,
  written out for the arguments the package passes (base 10, 64 bits, a one-byte
  separator). Go's \<open>int\<close> is taken to be 64 bits wide.
\<close>

subsection \<open>strconv: ParseUint, ParseInt, Atoi\<close>

datatype num_error = ErrSyntax | ErrRange

definition isDigit :: "char \<Rightarrow> bool" where
  "isDigit c = (48 \<le> (of_char c :: nat) \<and> (of_char c :: nat) \<le> 57)"

definition digitVal :: "char \<Rightarrow> nat" where
  "digitVal c = of_char c - 48"

definition maxUint64 :: nat where
  "maxUint64 = 18446744073709551615"

definition minInt64 :: int where
  "minInt64 = - 9223372036854775808"

definition maxInt64 :: int where
  "maxInt64 = 9223372036854775807"

definition inInt64 :: "int \<Rightarrow> bool" where
  "inInt64 i = (minInt64 \<le> i \<and> i \<le> maxInt64)"

text \<open>
  The digit loop of \<open>strconv.ParseUint(s, 10, 64)\<close>: a byte that is not a decimal
  digit is a syntax error (in base 10 neither letters nor underscores are accepted);
  the two overflow tests are \<open>n >= cutoff\<close> with \<open>cutoff = maxUint64/10 + 1\<close> and
  \<open>n1 < n || n1 > maxVal\<close> for \<open>n1 = n*10 + d\<close> computed modulo \<open>2^64\<close>, which for
  \<open>n < cutoff\<close> is the test \<open>n*10 + d > maxUint64\<close>. The first failure met from the
  left decides the error.
\<close>

fun parseUintLoop :: "nat \<Rightarrow> string \<Rightarrow> nat \<times> num_error option" where
  "parseUintLoop n [] = (n, None)"
| "parseUintLoop n (c # cs) =
     (if \<not> isDigit c then (0, Some ErrSyntax)
      else if n \<ge> maxUint64 div 10 + 1 then (maxUint64, Some ErrRange)
      else if n * 10 + digitVal c > maxUint64 then (maxUint64, Some ErrRange)
      else parseUintLoop (n * 10 + digitVal c) cs)"

definition ParseUint :: "string \<Rightarrow> nat \<times> num_error option" where
  "ParseUint s = (if s = [] then (0, Some ErrSyntax) else parseUintLoop 0 s)"

text \<open>
  \<open>strconv.ParseInt(s, 10, 64)\<close>: an optional sign, then \<open>ParseUint\<close>; a syntax error
  returns 0, a value outside the signed range returns the nearest bound with a range
  error.
\<close>

definition ParseInt :: "string \<Rightarrow> int \<times> num_error option" where
  "ParseInt s =
     (if s = [] then (0, Some ErrSyntax)
      else
        let neg = (hd s = CHR ''-'');
            s1 = (if hd s = CHR ''+'' \<or> hd s = CHR ''-'' then tl s else s);
            r = ParseUint s1;
            un = fst r
        in if snd r = Some ErrSyntax then (0, Some ErrSyntax)
           else if \<not> neg \<and> un \<ge> 9223372036854775808 then (maxInt64, Some ErrRange)
           else if neg \<and> un > 9223372036854775808 then (minInt64, Some ErrRange)
           else (if neg then - int un else int un, None))"

text \<open>\<open>strconv.Atoi\<close> returns what \<open>ParseInt(s, 10, 0)\<close> returns, as an \<open>int\<close>.\<close>

definition Atoi :: "string \<Rightarrow> int \<times> num_error option" where
  "Atoi s = ParseInt s"

subsection \<open>fmt: the verb \<open>%d\<close>\<close>

definition digitChar :: "nat \<Rightarrow> char" where
  "digitChar d = char_of (48 + d)"

fun digits :: "nat \<Rightarrow> string" where
  "digits n = (if n < 10 then [digitChar n] else digits (n div 10) @ [digitChar (n mod 10)])"

declare digits.simps [simp del]

definition fmt_d :: "int \<Rightarrow> string" where
  "fmt_d i = (if i < 0 then CHR ''-'' # digits (nat (- i)) else digits (nat i))"

subsection \<open>strings: Split on a one-byte separator\<close>

text \<open>
  \<open>strings.Split(s, sep)\<close> for a separator of one byte: the pieces between the
  separators; never the empty list (\<open>Split("", "@")\<close> is \<open>[""]\<close>).
\<close>

fun Split :: "string \<Rightarrow> char \<Rightarrow> string list" where
  "Split [] sep = [[]]"
| "Split (c # cs) sep =
     (if c = sep then [] # Split cs sep
      else (case Split cs sep of
              p # ps \<Rightarrow> (c # p) # ps
            | [] \<Rightarrow> [[c]]))"

text \<open>\<open>strings.Join(parts, sep)\<close>.\<close>

fun Join :: "string list \<Rightarrow> string \<Rightarrow> string" where
  "Join [] sep = []"
| "Join [p] sep = p"
| "Join (p # q # ps) sep = p @ sep @ Join (q # ps) sep"

section \<open>Errors of the package\<close>

datatype hls_error =
    ErrReadingPlaylist
  | ErrNotValidM3U8
  | ErrUnsupportedPlaylistType
  | ErrInvalidByterangeFormat string
  | ErrInvalidByterangeCount num_error
  | ErrInvalidByterangeOffset num_error
  | ErrAttributeNotFound string
  | ErrAtoi num_error

section \<open>Byterange\<close>

record Byterange =
  Count :: int
  Offset :: int

definition NewByterangeFromString :: "string \<Rightarrow> hls_error + Byterange" where
  "NewByterangeFromString s =
     (let parts = Split s (CHR ''@'') in
      if length parts = 0 \<or> length parts > 2 then Inl (ErrInvalidByterangeFormat s)
      else
        (case ParseInt (parts ! 0) of
           (cnt, Some e) \<Rightarrow> Inl (ErrInvalidByterangeCount e)
         | (cnt, None) \<Rightarrow>
             if length parts = 2 then
               (case ParseInt (parts ! 1) of
                  (off, Some e) \<Rightarrow> Inl (ErrInvalidByterangeOffset e)
                | (off, None) \<Rightarrow> Inr \<lparr>Count = cnt, Offset = off\<rparr>)
             else Inr \<lparr>Count = cnt, Offset = 0\<rparr>))"

definition Byterange_String :: "Byterange \<Rightarrow> string" where
  "Byterange_String b =
     (if Offset b > 0 then fmt_d (Count b) @ ''@'' @ fmt_d (Offset b)
      else fmt_d (Count b))"


section \<open>More of the Go library: white space, lines, indices\<close>

subsection \<open>strings: TrimSpace, TrimPrefix, Index, SplitN\<close>

text \<open>
  \<open>strings.TrimSpace\<close> removes the leading and the trailing runs of Unicode white
  space (\<open>unicode.IsSpace\<close>): the six ASCII characters tab, line feed, vertical tab,
  form feed, carriage return and space, and U+0085, U+00A0, U+1680, U+2000 to U+200A,
  U+2028, U+2029, U+202F, U+205F and U+3000, here in their UTF-8 encodings. A byte that
  starts no such encoding is not white space (an invalid byte decodes to U+FFFD).
  \<open>spaceLen\<close> is the number of bytes of the white-space rune a string starts with, 0
  when it starts with none; \<open>spaceLenRev\<close> reads the last rune of a string from the
  string reversed.
\<close>

definition isAsciiSpace :: "char \<Rightarrow> bool" where
  "isAsciiSpace c = (c = CHR 0x09 \<or> c = CHR 0x0A \<or> c = CHR 0x0B \<or> c = CHR 0x0C \<or>
                     c = CHR 0x0D \<or> c = CHR 0x20)"

definition isSpace3 :: "char \<Rightarrow> char \<Rightarrow> char \<Rightarrow> bool" where
  "isSpace3 a b c =
     ((a = CHR 0xE1 \<and> b = CHR 0x9A \<and> c = CHR 0x80) \<or>
      (a = CHR 0xE2 \<and> b = CHR 0x80 \<and>
         ((128 \<le> (of_char c :: nat) \<and> (of_char c :: nat) \<le> 138) \<or>
          c = CHR 0xA8 \<or> c = CHR 0xA9 \<or> c = CHR 0xAF)) \<or>
      (a = CHR 0xE2 \<and> b = CHR 0x81 \<and> c = CHR 0x9F) \<or>
      (a = CHR 0xE3 \<and> b = CHR 0x80 \<and> c = CHR 0x80))"

definition isSpace2 :: "char \<Rightarrow> char \<Rightarrow> bool" where
  "isSpace2 a b = (a = CHR 0xC2 \<and> (b = CHR 0x85 \<or> b = CHR 0xA0))"

fun spaceLen :: "string \<Rightarrow> nat" where
  "spaceLen [] = 0"
| "spaceLen [a] = (if isAsciiSpace a then 1 else 0)"
| "spaceLen [a, b] = (if isAsciiSpace a then 1 else if isSpace2 a b then 2 else 0)"
| "spaceLen (a # b # c # r) =
     (if isAsciiSpace a then 1 else if isSpace2 a b then 2 else if isSpace3 a b c then 3 else 0)"

fun spaceLenRev :: "string \<Rightarrow> nat" where
  "spaceLenRev [] = 0"
| "spaceLenRev [a] = (if isAsciiSpace a then 1 else 0)"
| "spaceLenRev [a, b] = (if isAsciiSpace a then 1 else if isSpace2 b a then 2 else 0)"
| "spaceLenRev (a # b # c # r) =
     (if isAsciiSpace a then 1 else if isSpace2 b a then 2 else if isSpace3 c b a then 3 else 0)"

lemma spaceLen_le: "spaceLen s \<le> length s"
  by (induction s rule: spaceLen.induct) auto

lemma spaceLenRev_le: "spaceLenRev s \<le> length s"
  by (induction s rule: spaceLenRev.induct) auto

function trimLeft :: "string \<Rightarrow> string" where
  "trimLeft s = (if spaceLen s = 0 then s else trimLeft (drop (spaceLen s) s))"
  by pat_completeness auto
termination
proof (relation "measure length")
  show "wf (measure length)" by simp
next
  fix s :: string
  assume "spaceLen s \<noteq> 0"
  moreover have "spaceLen s \<le> length s" by (rule spaceLen_le)
  ultimately show "(drop (spaceLen s) s, s) \<in> measure length" by simp
qed

function trimLeftRev :: "string \<Rightarrow> string" where
  "trimLeftRev s = (if spaceLenRev s = 0 then s else trimLeftRev (drop (spaceLenRev s) s))"
  by pat_completeness auto
termination
proof (relation "measure length")
  show "wf (measure length)" by simp
next
  fix s :: string
  assume "spaceLenRev s \<noteq> 0"
  moreover have "spaceLenRev s \<le> length s" by (rule spaceLenRev_le)
  ultimately show "(drop (spaceLenRev s) s, s) \<in> measure length" by simp
qed

declare trimLeft.simps [simp del] trimLeftRev.simps [simp del]

definition TrimSpace :: "string \<Rightarrow> string" where
  "TrimSpace s = rev (trimLeftRev (rev (trimLeft s)))"

definition TrimPrefix :: "string \<Rightarrow> string \<Rightarrow> string" where
  "TrimPrefix s pre = (if take (length pre) s = pre then drop (length pre) s else s)"

text \<open>\<open>strings.Index(s, sep)\<close> for a separator of one byte: the first index, or \<open>-1\<close>.\<close>

definition Index :: "string \<Rightarrow> char \<Rightarrow> int" where
  "Index s sep =
     (if sep \<in> set s then int (length (takeWhile (\<lambda>c. c \<noteq> sep) s)) else - 1)"

text \<open>\<open>strings.SplitN(s, sep, 2)\<close> for a separator of one byte: cut at the first one.\<close>

definition SplitN2 :: "string \<Rightarrow> char \<Rightarrow> string list" where
  "SplitN2 s sep =
     (if sep \<in> set s
      then [takeWhile (\<lambda>c. c \<noteq> sep) s, drop 1 (dropWhile (\<lambda>c. c \<noteq> sep) s)]
      else [s])"

subsection \<open>bufio: Scanner with ScanLines\<close>

text \<open>
  \<open>bufio.NewScanner(r)\<close> over a reader that delivers the bytes \<open>data\<close> without an
  I/O error. Each token is the text up to the next line feed, without one trailing
  carriage return; a last line with no line feed is a token when it is not empty. The
  scanner's buffer holds \<open>MaxScanTokenSize = 65536\<close> bytes: at a line of that many
  bytes or more the scan stops with \<open>ErrTooLong\<close>, which is what \<open>scanner.Err()\<close>
  then reports (the second component).
\<close>

definition dropCR :: "string \<Rightarrow> string" where
  "dropCR l = (if l \<noteq> [] \<and> last l = CHR 0x0D then butlast l else l)"

function scanLines :: "string \<Rightarrow> string list \<times> bool" where
  "scanLines data =
     (if data = [] then ([], False)
      else if length (takeWhile (\<lambda>c. c \<noteq> CHR 0x0A) data) \<ge> 65536 then ([], True)
      else
        (case scanLines (drop 1 (dropWhile (\<lambda>c. c \<noteq> CHR 0x0A) data)) of
           (ls, err) \<Rightarrow> (dropCR (takeWhile (\<lambda>c. c \<noteq> CHR 0x0A) data) # ls, err)))"
  by pat_completeness auto
termination
proof (relation "measure length")
  show "wf (measure length)" by simp
next
  fix data :: string
  assume d: "data \<noteq> []"
  let ?rest = "dropWhile (\<lambda>c. c \<noteq> CHR 0x0A) data"
  have le: "length ?rest \<le> length data" by (rule length_dropWhile_le)
  from d have pos: "0 < length data" by simp
  have "length (drop 1 ?rest) = length ?rest - 1" by simp
  with le pos have "length (drop 1 ?rest) < length data" by linarith
  then show "(drop 1 ?rest, data) \<in> measure length" by simp
qed

declare scanLines.simps [simp del]


section \<open>Playlist entries\<close>

datatype EntryType = EntryTypeComment | EntryTypeTag | EntryTypeURI

record PlaylistEntry =
  Type :: EntryType
  Tag :: string
  Value :: string
  URI :: string

text \<open>
  The two regular expressions of the line classifier, matched against a whole line.
  \<open>reTag = ^#(EXT[^:]*):?(.*)$\<close>: the name runs to the first colon (or to the end),
  the value is what follows that colon; \<open>.\<close> does not match a line feed, so a line
  feed after the colon makes the match fail. \<open>reComment = ^#(.*)$\<close>. Each function
  returns the submatches.
\<close>

definition reTag :: "string \<Rightarrow> (string \<times> string) option" where
  "reTag line =
     (if take 4 line = ''#EXT'' \<and>
         CHR 0x0A \<notin> set (drop 1 (dropWhile (\<lambda>c. c \<noteq> CHR '':'') (drop 4 line)))
      then Some (''EXT'' @ takeWhile (\<lambda>c. c \<noteq> CHR '':'') (drop 4 line),
                 drop 1 (dropWhile (\<lambda>c. c \<noteq> CHR '':'') (drop 4 line)))
      else None)"

definition reComment :: "string \<Rightarrow> string option" where
  "reComment line =
     (if take 1 line = ''#'' \<and> CHR 0x0A \<notin> set (drop 1 line) then Some (drop 1 line)
      else None)"

definition ParsePlaylistEntry :: "string \<Rightarrow> PlaylistEntry option" where
  "ParsePlaylistEntry line0 =
     (let line = TrimSpace line0 in
      if line = [] then None
      else
        (case reTag line of
           Some m \<Rightarrow> Some \<lparr>Type = EntryTypeTag, Tag = fst m, Value = snd m, URI = []\<rparr>
         | None \<Rightarrow>
             (case reComment line of
                Some m \<Rightarrow> Some \<lparr>Type = EntryTypeComment, Tag = [], Value = m, URI = []\<rparr>
              | None \<Rightarrow> Some \<lparr>Type = EntryTypeURI, Tag = [], Value = [], URI = line\<rparr>)))"

definition IsTag :: "PlaylistEntry \<Rightarrow> string \<Rightarrow> bool" where
  "IsTag e tagName = (Type e = EntryTypeTag \<and> Tag e = tagName)"


section \<open>Attribute lists\<close>

text \<open>
  A Go map is modelled as an association list with distinct keys: \<open>mapSet m k v\<close> is
  the assignment \<open>m[k] = v\<close>, \<open>map_of m k\<close> the lookup. The order of the pairs is
  the order of first insertion; Go's own iteration order is unspecified.
\<close>

fun mapSet :: "('k \<times> 'v) list \<Rightarrow> 'k \<Rightarrow> 'v \<Rightarrow> ('k \<times> 'v) list" where
  "mapSet [] k v = [(k, v)]"
| "mapSet (p # m) k v = (if fst p = k then (k, v) # m else p # mapSet m k v)"

type_synonym AttributeList = "(string \<times> string) list"

definition isUpper :: "char \<Rightarrow> bool" where
  "isUpper c = (65 \<le> (of_char c :: nat) \<and> (of_char c :: nat) \<le> 90)"

definition isLower :: "char \<Rightarrow> bool" where
  "isLower c = (97 \<le> (of_char c :: nat) \<and> (of_char c :: nat) \<le> 122)"

definition isWord :: "char \<Rightarrow> bool" where
  "isWord c = (isDigit c \<or> isUpper c \<or> isLower c \<or> c = CHR ''_'')"

definition isHexDigit :: "char \<Rightarrow> bool" where
  "isHexDigit c =
     (isDigit c \<or> (65 \<le> (of_char c :: nat) \<and> (of_char c :: nat) \<le> 70) \<or>
      (97 \<le> (of_char c :: nat) \<and> (of_char c :: nat) \<le> 102))"

definition isEnumChar :: "char \<Rightarrow> bool" where
  "isEnumChar c = (isUpper c \<or> isDigit c \<or> c = CHR ''-'')"

text \<open>
  The five regular expressions, each matched at the start of the string (the code keeps
  a match only when \<open>loc[0] == 0\<close>). Every one begins with \<open>(\w+)=\<close>: the longest
  run of word characters, which must be followed by \<open>=\<close>. A match returns the key,
  the value and the index \<open>loc[1]\<close> where the match ends. The repetitions are greedy.
\<close>

definition matchKey :: "string \<Rightarrow> (string \<times> string) option" where
  "matchKey s =
     (if takeWhile isWord s \<noteq> [] \<and> take 1 (dropWhile isWord s) = ''=''
      then Some (takeWhile isWord s, drop 1 (dropWhile isWord s))
      else None)"

definition reQuoted :: "string \<Rightarrow> (string \<times> string \<times> nat) option" where
  "reQuoted s =
     (case matchKey s of
        None \<Rightarrow> None
      | Some kr \<Rightarrow>
          if take 1 (snd kr) = [CHR 0x22] \<and> CHR 0x22 \<in> set (drop 1 (snd kr))
          then Some (fst kr, takeWhile (\<lambda>c. c \<noteq> CHR 0x22) (drop 1 (snd kr)),
                     length (fst kr) + 2 +
                     length (takeWhile (\<lambda>c. c \<noteq> CHR 0x22) (drop 1 (snd kr))) + 1)
          else None)"

definition reResolution :: "string \<Rightarrow> (string \<times> string \<times> nat) option" where
  "reResolution s =
     (case matchKey s of
        None \<Rightarrow> None
      | Some kr \<Rightarrow>
          (let w = takeWhile isDigit (snd kr);
               h = takeWhile isDigit (drop 1 (dropWhile isDigit (snd kr)))
           in if w \<noteq> [] \<and> take 1 (dropWhile isDigit (snd kr)) = ''x'' \<and> h \<noteq> []
              then Some (fst kr, w @ ''x'' @ h, length (fst kr) + 1 + length w + 1 + length h)
              else None))"

definition reHex :: "string \<Rightarrow> (string \<times> string \<times> nat) option" where
  "reHex s =
     (case matchKey s of
        None \<Rightarrow> None
      | Some kr \<Rightarrow>
          (let h = takeWhile isHexDigit (drop 2 (snd kr))
           in if take 2 (snd kr) = ''0x'' \<and> h \<noteq> []
              then Some (fst kr, ''0x'' @ h, length (fst kr) + 1 + 2 + length h)
              else None))"

definition reFloat :: "string \<Rightarrow> (string \<times> string \<times> nat) option" where
  "reFloat s =
     (case matchKey s of
        None \<Rightarrow> None
      | Some kr \<Rightarrow>
          (let i = takeWhile isDigit (snd kr);
               f = takeWhile isDigit (drop 1 (dropWhile isDigit (snd kr)))
           in if i = [] then None
              else if take 1 (dropWhile isDigit (snd kr)) = ''.'' \<and> f \<noteq> []
              then Some (fst kr, i @ ''.'' @ f, length (fst kr) + 1 + length i + 1 + length f)
              else Some (fst kr, i, length (fst kr) + 1 + length i)))"

definition reEnum :: "string \<Rightarrow> (string \<times> string \<times> nat) option" where
  "reEnum s =
     (case matchKey s of
        None \<Rightarrow> None
      | Some kr \<Rightarrow>
          (let v = takeWhile isEnumChar (snd kr)
           in if v \<noteq> [] then Some (fst kr, v, length (fst kr) + 1 + length v) else None))"

text \<open>The inner loop over the patterns: the first one that matches at index 0.\<close>

fun firstMatch ::
  "(string \<Rightarrow> (string \<times> string \<times> nat) option) list \<Rightarrow> string \<Rightarrow> (string \<times> string \<times> nat) option"
where
  "firstMatch [] s = None"
| "firstMatch (re # res) s = (case re s of Some m \<Rightarrow> Some m | None \<Rightarrow> firstMatch res s)"

definition patterns :: "(string \<Rightarrow> (string \<times> string \<times> nat) option) list" where
  "patterns = [reQuoted, reResolution, reHex, reFloat, reEnum]"

lemma matchKey_Some: "matchKey s = Some kr \<Longrightarrow> fst kr \<noteq> []"
  by (auto simp add: matchKey_def split: if_splits)

lemma firstMatch_patterns_pos:
  assumes "firstMatch patterns s = Some (k, v, n)"
  shows "0 < n"
proof -
  have "re s = Some (k, v, n) \<Longrightarrow> 0 < n"
    if "re \<in> {reQuoted, reResolution, reHex, reFloat, reEnum}" for re
    using that
    by (auto simp add: reQuoted_def reResolution_def reHex_def reFloat_def reEnum_def Let_def
        split: option.splits if_splits)
  with assms show ?thesis
    by (auto simp add: patterns_def split: option.splits)
qed

lemma length_trimLeft_le: "length (trimLeft s) \<le> length s"
proof (induction s rule: trimLeft.induct)
  case (1 s)
  then show ?case by (subst trimLeft.simps) (auto intro: order_trans)
qed

lemma length_trimLeftRev_le: "length (trimLeftRev s) \<le> length s"
proof (induction s rule: trimLeftRev.induct)
  case (1 s)
  then show ?case by (subst trimLeftRev.simps) (auto intro: order_trans)
qed

lemma length_TrimSpace_le: "length (TrimSpace s) \<le> length s"
proof -
  have "length (TrimSpace s) \<le> length (rev (trimLeft s))"
    unfolding TrimSpace_def using length_trimLeftRev_le [of "rev (trimLeft s)"] by simp
  also have "\<dots> \<le> length s" using length_trimLeft_le [of s] by simp
  finally show ?thesis .
qed

lemma length_TrimPrefix_le: "length (TrimPrefix s pre) \<le> length s"
  by (simp add: TrimPrefix_def)

function parseAttributeLoop :: "AttributeList \<Rightarrow> string \<Rightarrow> AttributeList" where
  "parseAttributeLoop attrs remaining =
     (if length remaining > 0 then
        (if TrimSpace remaining = [] then attrs
         else
           (case firstMatch patterns (TrimSpace remaining) of
              Some m \<Rightarrow>
                parseAttributeLoop (mapSet attrs (fst m) (fst (snd m)))
                  (TrimPrefix (drop (snd (snd m)) (TrimSpace remaining)) '','')
            | None \<Rightarrow>
                if Index (TrimSpace remaining) (CHR '','') > 0
                then parseAttributeLoop attrs
                       (drop (nat (Index (TrimSpace remaining) (CHR '','') + 1)) (TrimSpace remaining))
                else attrs))
      else attrs)"
  by pat_completeness auto
termination
proof (relation "measure (\<lambda>p. length (snd p))")
  show "wf (measure (\<lambda>p. length (snd p)))" by simp
next
  fix attrs :: AttributeList and remaining :: string and m :: "string \<times> string \<times> nat"
  assume ne: "TrimSpace remaining \<noteq> []"
    and m: "firstMatch patterns (TrimSpace remaining) = Some m"
  have "0 < snd (snd m)" using m firstMatch_patterns_pos [of "TrimSpace remaining" "fst m" "fst (snd m)" "snd (snd m)"]
    by simp
  with ne have "length (drop (snd (snd m)) (TrimSpace remaining)) < length (TrimSpace remaining)"
    by simp
  with length_TrimPrefix_le [of "drop (snd (snd m)) (TrimSpace remaining)" "'',''"]
    length_TrimSpace_le [of remaining]
  have "length (TrimPrefix (drop (snd (snd m)) (TrimSpace remaining)) '','') < length remaining"
    by linarith
  then show "((mapSet attrs (fst m) (fst (snd m)),
               TrimPrefix (drop (snd (snd m)) (TrimSpace remaining)) '',''),
              attrs, remaining) \<in> measure (\<lambda>p. length (snd p))"
    by simp
next
  fix attrs :: AttributeList and remaining :: string
  assume ne: "TrimSpace remaining \<noteq> []"
    and i: "0 < Index (TrimSpace remaining) (CHR '','')"
  from i have "0 < nat (Index (TrimSpace remaining) (CHR '','') + 1)" by simp
  with ne have "length (drop (nat (Index (TrimSpace remaining) (CHR '','') + 1)) (TrimSpace remaining))
                  < length (TrimSpace remaining)"
    by simp
  with length_TrimSpace_le [of remaining]
  have "length (drop (nat (Index (TrimSpace remaining) (CHR '','') + 1)) (TrimSpace remaining))
          < length remaining"
    by linarith
  then show "((attrs, drop (nat (Index (TrimSpace remaining) (CHR '','') + 1)) (TrimSpace remaining)),
              attrs, remaining) \<in> measure (\<lambda>p. length (snd p))"
    by simp
qed

declare parseAttributeLoop.simps [simp del]

definition ParseAttributeList :: "string \<Rightarrow> AttributeList" where
  "ParseAttributeList s = parseAttributeLoop [] s"

text \<open>\<open>Get\<close> is the map index \<open>a[key]\<close>: the empty string for a key that is absent.\<close>

definition Get :: "AttributeList \<Rightarrow> string \<Rightarrow> string" where
  "Get a key = (case map_of a key of Some v \<Rightarrow> v | None \<Rightarrow> [])"

definition GetInt :: "AttributeList \<Rightarrow> string \<Rightarrow> hls_error + int" where
  "GetInt a key =
     (if Get a key = [] then Inl (ErrAttributeNotFound key)
      else (case snd (Atoi (Get a key)) of
              Some e \<Rightarrow> Inl (ErrAtoi e)
            | None \<Rightarrow> Inr (fst (Atoi (Get a key)))))"


section \<open>The timeline model the codec builds and reads\<close>

text \<open>
  The OpenTimelineIO objects are collaborators of the codec; they are modelled by the
  data the codec stores in them and reads back. A metadata value (\<open>interface{}\<close>) is
  a tagged value; Go's \<open>int\<close> and \<open>int64\<close> are different dynamic types and are kept
  apart. \<open>float64\<close> is the type parameter \<open>'f\<close>: the codec only parses, compares
  with zero, prints and truncates floats, and these operations are the record
  \<open>float64_ops\<close>, a parameter of every function that touches a float.
\<close>

datatype 'f any =
    ANil
  | ABool bool
  | AInt int
  | AInt64 int
  | AFloat 'f
  | AString string
  | AList "'f any list"
  | AMap "(string \<times> 'f any) list"

type_synonym 'f AnyDictionary = "(string \<times> 'f any) list"

record 'f float64_ops =
  ParseFloat :: "string \<Rightarrow> 'f"
  floatZero :: "'f"
  floatPositive :: "'f \<Rightarrow> bool"
  formatFloat :: "'f \<Rightarrow> string"
  floatToInt :: "'f \<Rightarrow> int"

definition metadataNamespace :: string where
  "metadataNamespace = ''HLS''"

definition streamingMetadataNamespace :: string where
  "streamingMetadataNamespace = ''streaming''"

definition TrackKindVideo :: string where
  "TrackKindVideo = ''Video''"

definition TrackKindAudio :: string where
  "TrackKindAudio = ''Audio''"

record 'f ExternalReference =
  target_url :: string
  reference_metadata :: "'f AnyDictionary"

text \<open>
  \<open>source_range\<close> is the clip's duration in seconds: the code builds the range from
  start \<open>0\<close> and duration \<open>duration * 1.0\<close>, both at rate \<open>1.0\<close>, or leaves it nil.
\<close>

record 'f Clip =
  clip_name :: string
  media_reference :: "'f ExternalReference"
  source_range :: "'f option"
  clip_metadata :: "'f AnyDictionary"

record 'f Track =
  track_name :: string
  track_kind :: string
  track_children :: "'f Clip list"
  track_metadata :: "'f AnyDictionary"

text \<open>A child of the timeline's stack is a track or some other composable.\<close>

datatype 'f StackChild = TrackChild "'f Track" | OtherChild

record 'f Timeline =
  timeline_name :: string
  tracks :: "'f StackChild list"
  timeline_metadata :: "'f AnyDictionary"

section \<open>Decoder\<close>

fun collectEntries :: "string list \<Rightarrow> PlaylistEntry list" where
  "collectEntries [] = []"
| "collectEntries (line # ls) =
     (case ParsePlaylistEntry line of
        Some entry \<Rightarrow> entry # collectEntries ls
      | None \<Rightarrow> collectEntries ls)"

text \<open>
  \<open>parsePlaylist\<close>: the decoder's reader is modelled by the bytes it delivers. An error
  of the scanner is returned before the entries are validated.
\<close>

definition parsePlaylist :: "string \<Rightarrow> hls_error + PlaylistEntry list" where
  "parsePlaylist input =
     (let entries = collectEntries (fst (scanLines input)) in
      if snd (scanLines input) then Inl ErrReadingPlaylist
      else if length entries = 0 \<or> \<not> IsTag (entries ! 0) ''EXTM3U'' then Inl ErrNotValidM3U8
      else Inr entries)"

fun isMediaPlaylist :: "PlaylistEntry list \<Rightarrow> bool" where
  "isMediaPlaylist [] = False"
| "isMediaPlaylist (entry # entries) =
     (if IsTag entry ''EXTINF'' then True
      else if IsTag entry ''EXT-X-STREAM-INF'' then False
      else isMediaPlaylist entries)"

definition createClip ::
  "'f float64_ops \<Rightarrow> string \<Rightarrow> 'f \<Rightarrow> string \<Rightarrow> Byterange option \<Rightarrow> string \<Rightarrow>
   Byterange option \<Rightarrow> string \<Rightarrow> string \<Rightarrow> int \<Rightarrow> 'f Clip" where
  "createClip fl uri duration title byterange mapURI mapByterange keyInfo programDateTime
     discontinuitySeq =
     (let name = (if title = [] then uri else title);
          sourceRange = (if floatPositive fl duration then Some duration else None);
          sm1 = (case byterange of
                   Some b \<Rightarrow>
                     mapSet (mapSet [] ''byte_count'' (AInt64 (Count b)))
                       ''byte_offset'' (AInt64 (Offset b))
                 | None \<Rightarrow> []);
          mapData =
            (if mapURI \<noteq> [] then
               (case mapByterange of
                  Some mb \<Rightarrow>
                    mapSet [(''init_uri'', AString mapURI)] ''init_byterange''
                      (AMap [(''byte_count'', AInt64 (Count mb)),
                             (''byte_offset'', AInt64 (Offset mb))])
                | None \<Rightarrow> [(''init_uri'', AString mapURI)])
             else []);
          streamingMetadata = fold (\<lambda>kv m. mapSet m (fst kv) (snd kv)) mapData sm1;
          h1 = (if keyInfo \<noteq> [] then mapSet [] ''EXT-X-KEY'' (AString keyInfo) else []);
          h2 = (if programDateTime \<noteq> []
                then mapSet h1 ''EXT-X-PROGRAM-DATE-TIME'' (AString programDateTime) else h1);
          hlsClipMetadata =
            (if discontinuitySeq > 0
             then mapSet h2 ''discontinuity_sequence'' (AInt discontinuitySeq) else h2);
          m1 = (if length hlsClipMetadata > 0
                then mapSet [] metadataNamespace (AMap hlsClipMetadata) else []);
          metadata = (if length streamingMetadata > 0
                      then mapSet m1 streamingMetadataNamespace (AMap streamingMetadata) else m1);
          ref = \<lparr>target_url = uri, reference_metadata = metadata\<rparr>
      in \<lparr>clip_name = name, media_reference = ref, source_range = sourceRange,
          clip_metadata = metadata\<rparr>)"

text \<open>
  The local variables of \<open>decodeMediaPlaylist\<close> and the objects it fills. Byte counts
  and offsets are \<open>int64\<close>: their sum wraps around (\<open>add64\<close>). The discontinuity
  counter is an \<open>int\<close> that only a playlist of \<open>2^63\<close> lines could overflow; it is
  counted without a bound.
\<close>

definition wrap64 :: "int \<Rightarrow> int" where
  "wrap64 i = (i + 9223372036854775808) mod 18446744073709551616 - 9223372036854775808"

definition add64 :: "int \<Rightarrow> int \<Rightarrow> int" where
  "add64 a b = wrap64 (a + b)"

record 'f DecodeState =
  currentDuration :: "'f"
  currentTitle :: string
  currentByterange :: "Byterange option"
  currentKey :: string
  currentProgramDateTime :: string
  mapURI :: string
  mapByterange :: "Byterange option"
  lastByterangeEnd :: int
  discontinuityCount :: int
  hlsMetadata :: "'f AnyDictionary"
  trackChildren :: "'f Clip list"

definition initialState :: "'f float64_ops \<Rightarrow> 'f DecodeState" where
  "initialState fl =
     \<lparr>currentDuration = floatZero fl, currentTitle = [], currentByterange = None,
      currentKey = [], currentProgramDateTime = [], mapURI = [], mapByterange = None,
      lastByterangeEnd = 0, discontinuityCount = 0, hlsMetadata = [], trackChildren = []\<rparr>"

text \<open>One turn of the loop: the \<open>switch\<close>, its cases in the order of the source.\<close>

definition decodeEntry :: "'f float64_ops \<Rightarrow> 'f DecodeState \<Rightarrow> PlaylistEntry \<Rightarrow> 'f DecodeState" where
  "decodeEntry fl st entry =
     (if IsTag entry ''EXT-X-VERSION'' then
        st\<lparr>hlsMetadata := mapSet (hlsMetadata st) ''version''
                             (AInt (fst (Atoi (TrimSpace (Value entry)))))\<rparr>
      else if IsTag entry ''EXT-X-TARGETDURATION'' then
        st\<lparr>hlsMetadata := mapSet (hlsMetadata st) ''target_duration''
                             (AInt (fst (Atoi (TrimSpace (Value entry)))))\<rparr>
      else if IsTag entry ''EXT-X-MEDIA-SEQUENCE'' then
        st\<lparr>hlsMetadata := mapSet (hlsMetadata st) ''media_sequence''
                             (AInt (fst (Atoi (TrimSpace (Value entry)))))\<rparr>
      else if IsTag entry ''EXT-X-PLAYLIST-TYPE'' then
        st\<lparr>hlsMetadata := mapSet (hlsMetadata st) ''playlist_type''
                             (AString (TrimSpace (Value entry)))\<rparr>
      else if IsTag entry ''EXT-X-MAP'' then
        (let attrs = ParseAttributeList (Value entry);
             st1 = st\<lparr>mapURI := Get attrs ''URI''\<rparr>
         in if Get attrs ''BYTERANGE'' \<noteq> [] then
              st1\<lparr>mapByterange :=
                     (case NewByterangeFromString (Get attrs ''BYTERANGE'') of
                        Inr b \<Rightarrow> Some b
                      | Inl e \<Rightarrow> None)\<rparr>
            else st1)
      else if IsTag entry ''EXTINF'' then
        (let parts = SplitN2 (Value entry) (CHR '','');
             st1 = (if length parts > 0
                    then st\<lparr>currentDuration := ParseFloat fl (TrimSpace (parts ! 0))\<rparr>
                    else st)
         in if length parts > 1 then st1\<lparr>currentTitle := TrimSpace (parts ! 1)\<rparr> else st1)
      else if IsTag entry ''EXT-X-BYTERANGE'' then
        (case NewByterangeFromString (TrimSpace (Value entry)) of
           Inr br \<Rightarrow>
             if Offset br = 0 \<and> lastByterangeEnd st > 0
             then st\<lparr>currentByterange := Some (br\<lparr>Offset := lastByterangeEnd st\<rparr>)\<rparr>
             else st\<lparr>currentByterange := Some br\<rparr>
         | Inl e \<Rightarrow> st)
      else if IsTag entry ''EXT-X-KEY'' then
        st\<lparr>currentKey := Value entry\<rparr>
      else if IsTag entry ''EXT-X-PROGRAM-DATE-TIME'' then
        st\<lparr>currentProgramDateTime := TrimSpace (Value entry)\<rparr>
      else if IsTag entry ''EXT-X-DISCONTINUITY'' then
        st\<lparr>discontinuityCount := discontinuityCount st + 1\<rparr>
      else if Type entry = EntryTypeURI then
        (let clip = createClip fl (URI entry) (currentDuration st) (currentTitle st)
                      (currentByterange st) (mapURI st) (mapByterange st) (currentKey st)
                      (currentProgramDateTime st) (discontinuityCount st);
             st1 = st\<lparr>trackChildren := trackChildren st @ [clip]\<rparr>;
             st2 = (case currentByterange st of
                      Some b \<Rightarrow> st1\<lparr>lastByterangeEnd := add64 (Offset b) (Count b)\<rparr>
                    | None \<Rightarrow> st1)
         in st2\<lparr>currentDuration := floatZero fl, currentTitle := [],
                 currentByterange := None, currentProgramDateTime := []\<rparr>)
      else st)"

fun decodeLoop :: "'f float64_ops \<Rightarrow> 'f DecodeState \<Rightarrow> PlaylistEntry list \<Rightarrow> 'f DecodeState" where
  "decodeLoop fl st [] = st"
| "decodeLoop fl st (entry # entries) = decodeLoop fl (decodeEntry fl st entry) entries"

definition decodeMediaPlaylist ::
  "'f float64_ops \<Rightarrow> PlaylistEntry list \<Rightarrow> hls_error + 'f Timeline" where
  "decodeMediaPlaylist fl entries =
     (let st = decodeLoop fl (initialState fl) entries;
          track = \<lparr>track_name = [], track_kind = TrackKindVideo,
                   track_children = trackChildren st,
                   track_metadata = mapSet [] metadataNamespace (AMap (hlsMetadata st))\<rparr>
      in Inr \<lparr>timeline_name = ''HLS Playlist'', tracks = [TrackChild track],
              timeline_metadata = []\<rparr>)"

definition Decode :: "'f float64_ops \<Rightarrow> string \<Rightarrow> hls_error + 'f Timeline" where
  "Decode fl input =
     (case parsePlaylist input of
        Inl err \<Rightarrow> Inl err
      | Inr entries \<Rightarrow>
          if isMediaPlaylist entries then decodeMediaPlaylist fl entries
          else Inl ErrUnsupportedPlaylistType)"

section \<open>Encoder: master playlists\<close>

text \<open>
  Two behaviours of the Go runtime are parameters of the encoder: the order in which a
  \<open>range\<close> loop visits the entries of a map, which Go leaves unspecified, and the text
  \<open>%v\<close> prints for a slice or a map. An order is admissible when it visits every
  entry once.
\<close>

record 'f go_runtime =
  attributeOrder :: "AttributeList \<Rightarrow> AttributeList"
  metadataOrder :: "'f AnyDictionary \<Rightarrow> 'f AnyDictionary"
  formatComposite :: "'f any \<Rightarrow> string"


text \<open>\<open>fmt.Sprintf("%v", x)\<close> for a metadata value.\<close>

definition formatV :: "'f go_runtime \<Rightarrow> 'f float64_ops \<Rightarrow> 'f any \<Rightarrow> string" where
  "formatV rt fl x =
     (case x of
        ANil \<Rightarrow> ''<nil>''
      | ABool b \<Rightarrow> (if b then ''true'' else ''false'')
      | AInt n \<Rightarrow> fmt_d n
      | AInt64 n \<Rightarrow> fmt_d n
      | AFloat f \<Rightarrow> formatFloat fl f
      | AString s \<Rightarrow> s
      | AList xs \<Rightarrow> formatComposite rt x
      | AMap m \<Rightarrow> formatComposite rt x)"

definition needsQuoting :: "string \<Rightarrow> bool" where
  "needsQuoting s =
     ((\<exists>r \<in> set s. \<not> (isUpper r \<or> isLower r \<or> isDigit r \<or> r = CHR ''.'' \<or>
                          r = CHR ''x'' \<or> r = CHR ''-'')) \<or>
      CHR '','' \<in> set s \<or> CHR ''/'' \<in> set s)"

definition renderAttribute :: "string \<times> string \<Rightarrow> string" where
  "renderAttribute kv =
     (if needsQuoting (snd kv) then fst kv @ ''=\"'' @ snd kv @ ''\"''
      else fst kv @ ''='' @ snd kv)"

definition AttributeList_String :: "'f go_runtime \<Rightarrow> AttributeList \<Rightarrow> string" where
  "AttributeList_String rt a = Join (map renderAttribute (attributeOrder rt a)) '',''"


text \<open>
  \<open>getHLSMetadata\<close> and \<open>getStreamingMetadata\<close> read one namespace of an object's
  metadata: the map stored there, or an empty map.
\<close>

definition getNamespace :: "'f AnyDictionary \<Rightarrow> string \<Rightarrow> 'f AnyDictionary" where
  "getNamespace md ns =
     (case map_of md ns of
        Some (AMap m) \<Rightarrow> m
      | _ \<Rightarrow> [])"

definition getHLSMetadata :: "'f AnyDictionary \<Rightarrow> 'f AnyDictionary" where
  "getHLSMetadata md = getNamespace md metadataNamespace"

definition getStreamingMetadata :: "'f Track \<Rightarrow> 'f AnyDictionary" where
  "getStreamingMetadata track = getNamespace (track_metadata track) streamingMetadataNamespace"

definition getStringOrDefault :: "'f AnyDictionary \<Rightarrow> string \<Rightarrow> string \<Rightarrow> string" where
  "getStringOrDefault m key defaultVal =
     (case map_of m key of
        Some (AString val) \<Rightarrow> val
      | _ \<Rightarrow> defaultVal)"

definition getIntOrDefault :: "'f float64_ops \<Rightarrow> 'f AnyDictionary \<Rightarrow> string \<Rightarrow> int \<Rightarrow> int" where
  "getIntOrDefault fl m key defaultVal =
     (case map_of m key of
        Some (AInt val) \<Rightarrow> val
      | Some (AFloat val) \<Rightarrow> floatToInt fl val
      | _ \<Rightarrow> defaultVal)"

definition buildStreamInfAttributes ::
  "'f go_runtime \<Rightarrow> 'f float64_ops \<Rightarrow> 'f AnyDictionary \<Rightarrow> AttributeList" where
  "buildStreamInfAttributes rt fl streamingMD =
     (let a1 = (case map_of streamingMD ''bandwidth'' of
                  Some bandwidth \<Rightarrow> mapSet [] ''BANDWIDTH'' (formatV rt fl bandwidth)
                | None \<Rightarrow> []);
          a2 = (case map_of streamingMD ''codec'' of
                  Some (AString codec) \<Rightarrow> mapSet a1 ''CODECS'' codec
                | _ \<Rightarrow> a1);
          a3 = (case map_of streamingMD ''frame_rate'' of
                  Some frameRate \<Rightarrow> mapSet a2 ''FRAME-RATE'' (formatV rt fl frameRate)
                | None \<Rightarrow> a2)
      in (case map_of streamingMD ''width'' of
            Some width \<Rightarrow>
              (case map_of streamingMD ''height'' of
                 Some height \<Rightarrow>
                   mapSet a3 ''RESOLUTION'' (formatV rt fl width @ ''x'' @ formatV rt fl height)
               | None \<Rightarrow> a3)
          | None \<Rightarrow> a3))"

text \<open>The two nested loops that look for a linked audio track: the first audio track,
  in track order, whose name is one of the strings of \<open>linked_tracks\<close>.\<close>

fun nameListed :: "'f any list \<Rightarrow> string \<Rightarrow> bool" where
  "nameListed [] name = False"
| "nameListed (linkedName # rest) name =
     (case linkedName of
        AString s \<Rightarrow> if s = name then True else nameListed rest name
      | _ \<Rightarrow> nameListed rest name)"

fun findLinked :: "'f Track list \<Rightarrow> 'f any list \<Rightarrow> 'f Track option" where
  "findLinked [] linkedTracks = None"
| "findLinked (audioTrack # rest) linkedTracks =
     (if nameListed linkedTracks (track_name audioTrack) then Some audioTrack
      else findLinked rest linkedTracks)"

text \<open>The attributes of a video track's \<open>EXT-X-STREAM-INF\<close> line once a linked audio
  track is found.\<close>

definition linkAudio ::
  "'f float64_ops \<Rightarrow> AttributeList \<Rightarrow> 'f Track \<Rightarrow> AttributeList" where
  "linkAudio fl attrs audioTrack =
     (let audioStreamingMD = getStreamingMetadata audioTrack;
          audioGroupID = getStringOrDefault audioStreamingMD ''group_id'' ''audio1'';
          audioCodec = getStringOrDefault audioStreamingMD ''codec'' [];
          audioBandwidth = getIntOrDefault fl audioStreamingMD ''bandwidth'' 0;
          a1 = (if audioCodec \<noteq> [] then
                  (case map_of attrs ''CODECS'' of
                     Some codec \<Rightarrow> mapSet attrs ''CODECS'' (codec @ '','' @ audioCodec)
                   | None \<Rightarrow> attrs)
                else attrs);
          a2 = mapSet a1 ''AUDIO'' audioGroupID
      in if audioBandwidth > 0 then
           (case GetInt a2 ''BANDWIDTH'' of
              Inr bw \<Rightarrow> mapSet a2 ''BANDWIDTH'' (fmt_d (add64 bw audioBandwidth))
            | Inl e \<Rightarrow> a2)
         else a2)"

text \<open>One turn of the last loop of \<open>encodeMasterPlaylist\<close>: the attributes and the
  text written for one video track.\<close>

definition streamInfAttributes ::
  "'f go_runtime \<Rightarrow> 'f float64_ops \<Rightarrow> 'f Track list \<Rightarrow> 'f Track \<Rightarrow> AttributeList" where
  "streamInfAttributes rt fl audioTracks videoTrack =
     (let attrs = buildStreamInfAttributes rt fl (getStreamingMetadata videoTrack) in
      case map_of (track_metadata videoTrack) ''linked_tracks'' of
        Some (AList linkedTracks) \<Rightarrow>
          (case findLinked audioTracks linkedTracks of
             Some audioTrack \<Rightarrow> linkAudio fl attrs audioTrack
           | None \<Rightarrow> attrs)
      | _ \<Rightarrow> attrs)"

definition streamInfBlock ::
  "'f go_runtime \<Rightarrow> 'f float64_ops \<Rightarrow> 'f Track list \<Rightarrow> 'f Track \<Rightarrow> string" where
  "streamInfBlock rt fl audioTracks videoTrack =
     ''#EXT-X-STREAM-INF:'' @
       AttributeList_String rt (streamInfAttributes rt fl audioTracks videoTrack) @ [CHR 0x0A] @
     getStringOrDefault (getHLSMetadata (track_metadata videoTrack)) ''uri''
       (track_name videoTrack @ ''.m3u8'') @ [CHR 0x0A] @
     [CHR 0x0A]"






section \<open>Reading the decoder's output\<close>

text \<open>
  The value a clip's metadata holds under a key of a namespace, as a reader of the
  timeline gets it: \<open>metadata[ns].(map[string]interface{})[key]\<close>.
\<close>

definition lookupNamespace :: "'f AnyDictionary \<Rightarrow> string \<Rightarrow> string \<Rightarrow> 'f any option" where
  "lookupNamespace md ns key =
     (case map_of md ns of
        Some (AMap m) \<Rightarrow> map_of m key
      | _ \<Rightarrow> None)"

text \<open>A segment's discontinuity index: 0 when the key is absent.\<close>

definition discontinuityIndex :: "'f Clip \<Rightarrow> int" where
  "discontinuityIndex c =
     (case lookupNamespace (clip_metadata c) metadataNamespace ''discontinuity_sequence'' of
        Some (AInt n) \<Rightarrow> n
      | _ \<Rightarrow> 0)"

definition isURILine :: "PlaylistEntry \<Rightarrow> bool" where
  "isURILine e = (Type e = EntryTypeURI)"

text \<open>
  The playlist shape of the specification: some \<open>EXTINF\<close> tag has no
  \<open>EXT-X-STREAM-INF\<close> tag before it.
\<close>

definition extinfBeforeStreamInf :: "PlaylistEntry list \<Rightarrow> bool" where
  "extinfBeforeStreamInf entries =
     (\<exists>pre e post. entries = pre @ e # post \<and> IsTag e ''EXTINF'' \<and>
        (\<forall>x \<in> set pre. \<not> IsTag x ''EXT-X-STREAM-INF''))"

text \<open>
  An instance of the float operations on which examples are evaluated: a float is kept
  as the text it was parsed from. The theorems hold for every instance.
\<close>

definition textFloats :: "string float64_ops" where
  "textFloats =
     \<lparr>ParseFloat = (\<lambda>s. s), floatZero = ''0'',
      floatPositive = (\<lambda>s. s \<noteq> [] \<and> s \<noteq> ''0'' \<and> take 1 s \<noteq> ''-''),
      formatFloat = (\<lambda>s. s), floatToInt = (\<lambda>s. fst (ParseInt (takeWhile isDigit s)))\<rparr>"

text \<open>
  A runtime on which examples are evaluated: maps are visited in the order of
  insertion. The theorems hold for every admissible runtime.
\<close>

definition insertionOrder :: "'f go_runtime" where
  "insertionOrder =
     \<lparr>attributeOrder = (\<lambda>a. a), metadataOrder = (\<lambda>m. m),
      formatComposite = (\<lambda>x. ''[...]'')\<rparr>"

text \<open>Example playlists are written line by line; \<open>joinLines\<close> ends each with a line feed.\<close>

definition joinLines :: "string list \<Rightarrow> string" where
  "joinLines ls = concat (map (\<lambda>l. l @ [CHR 0x0A]) ls)"

text \<open>The byte count and byte offset a segment carries in its streaming metadata.\<close>

definition byteCount :: "'f Clip \<Rightarrow> int option" where
  "byteCount c =
     (case lookupNamespace (clip_metadata c) streamingMetadataNamespace ''byte_count'' of
        Some (AInt64 n) \<Rightarrow> Some n
      | _ \<Rightarrow> None)"

definition byteOffset :: "'f Clip \<Rightarrow> int option" where
  "byteOffset c =
     (case lookupNamespace (clip_metadata c) streamingMetadataNamespace ''byte_offset'' of
        Some (AInt64 n) \<Rightarrow> Some n
      | _ \<Rightarrow> None)"

text \<open>Entries as the line classifier builds them, for writing examples.\<close>

definition tagEntry :: "string \<Rightarrow> string \<Rightarrow> PlaylistEntry" where
  "tagEntry name v = \<lparr>Type = EntryTypeTag, Tag = name, Value = v, URI = []\<rparr>"

definition uriEntry :: "string \<Rightarrow> PlaylistEntry" where
  "uriEntry u = \<lparr>Type = EntryTypeURI, Tag = [], Value = [], URI = u\<rparr>"

text \<open>
  The local variables of \<open>decodeMediaPlaylist\<close> once its loop has handled the entries
  \<open>entries\<close>, from the initial values the function gives them.
\<close>

definition stateAfter :: "'f float64_ops \<Rightarrow> PlaylistEntry list \<Rightarrow> 'f DecodeState" where
  "stateAfter fl entries = decodeLoop fl (initialState fl) entries"

text \<open>
  The segments of a decoding result as a caller reads them: the children of the single
  track of the timeline; none when the result is an error.
\<close>

definition segmentsOf :: "hls_error + 'f Timeline \<Rightarrow> 'f Clip list" where
  "segmentsOf r =
     (case r of
        Inr t \<Rightarrow> (case tracks t of [TrackChild tr] \<Rightarrow> track_children tr | _ \<Rightarrow> [])
      | Inl e \<Rightarrow> [])"

section \<open>Examples and reorderings\<close>

text \<open>The four attributes of the attribute-list example.\<close>

definition exampleAttributes :: "string list" where
  "exampleAttributes =
     [''URI=\"init.mp4\"'', ''BYTERANGE=\"652@0\"'', ''BANDWIDTH=1280000'',
      ''RESOLUTION=1920x1080'']"

text \<open>All reorderings of a list: \<open>inserts x ys\<close> puts \<open>x\<close> at every place of \<open>ys\<close>.\<close>

fun inserts :: "'a \<Rightarrow> 'a list \<Rightarrow> 'a list list" where
  "inserts x [] = [[x]]"
| "inserts x (y # ys) = (x # y # ys) # map ((#) y) (inserts x ys)"

fun reorderings :: "'a list \<Rightarrow> 'a list list" where
  "reorderings [] = [[]]"
| "reorderings (x # xs) = concat (map (inserts x) (reorderings xs))"

text \<open>What the attribute-list example must give back: the four keys with their values.\<close>

definition exampleRecovered :: "AttributeList \<Rightarrow> bool" where
  "exampleRecovered attrs =
     (Get attrs ''URI'' = ''init.mp4'' \<and> Get attrs ''BYTERANGE'' = ''652@0'' \<and>
      Get attrs ''BANDWIDTH'' = ''1280000'' \<and> Get attrs ''RESOLUTION'' = ''1920x1080'' \<and>
      set (map fst attrs) = {''URI'', ''BYTERANGE'', ''BANDWIDTH'', ''RESOLUTION''} \<and>
      length attrs = 4 \<and> GetInt attrs ''BANDWIDTH'' = Inr 1280000)"

text \<open>
  The tracks of the master-playlist example: a video track of bandwidth 123456 whose
  metadata lists the audio track \<open>a1\<close> under \<open>linked_tracks\<close>, the audio track of
  bandwidth 12345, and the same video track with \<open>linked_tracks\<close> stored inside its
  format (\<open>HLS\<close>) namespace instead.
\<close>

definition exampleVideoStreaming :: "string any" where
  "exampleVideoStreaming =
     AMap [(''bandwidth'', AInt 123456), (''codec'', AString ''avc1.4d401f''),
           (''width'', AInt 1920), (''height'', AInt 1080), (''frame_rate'', AFloat ''23.976'')]"

definition exampleVideoTrack :: "string Track" where
  "exampleVideoTrack =
     \<lparr>track_name = ''v1'', track_kind = TrackKindVideo, track_children = [],
      track_metadata =
        [(''streaming'', exampleVideoStreaming),
         (''HLS'', AMap [(''uri'', AString ''v1/prog_index.m3u8'')]),
         (''linked_tracks'', AList [AString ''a1''])]\<rparr>"

definition exampleAudioTrack :: "string Track" where
  "exampleAudioTrack =
     \<lparr>track_name = ''a1'', track_kind = TrackKindAudio, track_children = [],
      track_metadata =
        [(''streaming'', AMap [(''bandwidth'', AInt 12345), (''codec'', AString ''mp4a.40.2''),
                               (''group_id'', AString ''audio1'')]),
         (''HLS'', AMap [(''uri'', AString ''a1/prog_index.m3u8'')])]\<rparr>"



section \<open>Byterange codec: properties\<close>


lemma isDigit_digitChar: "d < 10 \<Longrightarrow> isDigit (digitChar d)"
  by (simp add: isDigit_def digitChar_def)

lemma digitVal_digitChar: "d < 10 \<Longrightarrow> digitVal (digitChar d) = d"
  by (simp add: digitVal_def digitChar_def)

lemma digits_all_digit: "c \<in> set (digits n) \<Longrightarrow> isDigit c"
proof (induction n arbitrary: c rule: digits.induct)
  case (1 n)
  show ?case
  proof (cases "n < 10")
    case True
    with "1.prems" show ?thesis
      by (simp add: digits.simps [of n] isDigit_digitChar)
  next
    case False
    with "1.prems" "1.IH" show ?thesis
      by (auto simp add: digits.simps [of n] isDigit_digitChar)
  qed
qed

lemma digits_not_Nil: "digits n \<noteq> []"
  by (simp add: digits.simps [of n])

lemma parseUintLoop_snoc:
  "parseUintLoop a (xs @ [c]) =
     (if snd (parseUintLoop a xs) = None then parseUintLoop (fst (parseUintLoop a xs)) [c]
      else parseUintLoop a xs)"
  by (induction xs arbitrary: a) auto

lemma parseUintLoop_digits:
  "n \<le> maxUint64 \<Longrightarrow> parseUintLoop 0 (digits n) = (n, None)"
proof (induction n rule: digits.induct)
  case (1 n)
  show ?case
  proof (cases "n < 10")
    case True
    then show ?thesis using "1.prems"
      by (simp add: digits.simps [of n] isDigit_digitChar digitVal_digitChar maxUint64_def)
  next
    case False
    have le: "n div 10 \<le> maxUint64" using "1.prems" by simp
    have ih: "parseUintLoop 0 (digits (n div 10)) = (n div 10, None)"
      using "1.IH" [OF False le] .
    have d: "n mod 10 < 10" by simp
    have "n div 10 \<le> maxUint64 div 10" using "1.prems" by (simp add: div_le_mono)
    moreover have "n div 10 * 10 + n mod 10 = n" by simp
    ultimately show ?thesis using False ih "1.prems" d
      by (simp add: digits.simps [of n] parseUintLoop_snoc isDigit_digitChar digitVal_digitChar
          del: mod_less_divisor)
  qed
qed

lemma hd_digits_not_sign: "hd (digits n) \<noteq> CHR ''-'' \<and> hd (digits n) \<noteq> CHR ''+''"
proof -
  have "hd (digits n) \<in> set (digits n)" using digits_not_Nil by simp
  then have "isDigit (hd (digits n))" by (rule digits_all_digit)
  then show ?thesis by (auto simp add: isDigit_def)
qed

lemma ParseInt_fmt_d: "inInt64 i \<Longrightarrow> ParseInt (fmt_d i) = (i, None)"
proof (cases "i < 0")
  case True
  assume r: "inInt64 i"
  then have le: "nat (- i) \<le> maxUint64" unfolding inInt64_def minInt64_def maxUint64_def by linarith
  have "ParseUint (digits (nat (- i))) = (nat (- i), None)"
    using parseUintLoop_digits [OF le] digits_not_Nil by (simp add: ParseUint_def)
  moreover have "\<not> 9223372036854775808 < nat (- i)"
    using r unfolding inInt64_def minInt64_def by linarith
  ultimately show ?thesis using True
    by (simp add: ParseInt_def fmt_d_def Let_def)
next
  case False
  assume r: "inInt64 i"
  then have le: "nat i \<le> maxUint64" unfolding inInt64_def maxInt64_def maxUint64_def by linarith
  have "ParseUint (digits (nat i)) = (nat i, None)"
    using parseUintLoop_digits [OF le] digits_not_Nil by (simp add: ParseUint_def)
  moreover have "\<not> 9223372036854775808 \<le> nat i"
    using r unfolding inInt64_def maxInt64_def by linarith
  ultimately show ?thesis using False hd_digits_not_sign [of "nat i"] digits_not_Nil [of "nat i"]
    by (simp add: ParseInt_def fmt_d_def Let_def)
qed

lemma Split_no_sep: "sep \<notin> set s \<Longrightarrow> Split s sep = [s]"
  by (induction s) auto

lemma Split_at_sep: "sep \<notin> set a \<Longrightarrow> Split (a @ sep # b) sep = a # Split b sep"
  by (induction a) auto

lemma at_notin_fmt_d: "CHR ''@'' \<notin> set (fmt_d i)"
proof -
  have "\<not> isDigit (CHR ''@'')" by (simp add: isDigit_def)
  then have "CHR ''@'' \<notin> set (digits n)" for n using digits_all_digit by blast
  then show ?thesis by (simp add: fmt_d_def)
qed

lemma NewByterange_count_only:
  "inInt64 c \<Longrightarrow> NewByterangeFromString (fmt_d c) = Inr \<lparr>Count = c, Offset = 0\<rparr>"
  by (simp add: NewByterangeFromString_def Split_no_sep at_notin_fmt_d ParseInt_fmt_d)

lemma NewByterange_count_offset:
  "inInt64 c \<Longrightarrow> inInt64 off \<Longrightarrow>
   NewByterangeFromString (fmt_d c @ ''@'' @ fmt_d off) = Inr \<lparr>Count = c, Offset = off\<rparr>"
  by (simp add: NewByterangeFromString_def Split_at_sep Split_no_sep at_notin_fmt_d ParseInt_fmt_d)

lemma ParseInt_range: "ParseInt s = (v, None) \<Longrightarrow> inInt64 v"
  by (auto simp add: ParseInt_def Let_def inInt64_def minInt64_def maxInt64_def split: if_splits)

lemma ParseInt_nonneg: "ParseInt s = (v, None) \<Longrightarrow> CHR ''-'' \<notin> set s \<Longrightarrow> 0 \<le> v"
  by (cases s) (auto simp add: ParseInt_def Let_def split: if_splits)

lemma Split_subset: "\<forall>p \<in> set (Split s sep). set p \<subseteq> set s"
proof (induction s)
  case Nil
  show ?case by simp
next
  case (Cons c cs)
  show ?case
  proof (cases "Split cs sep")
    case Nil
    then show ?thesis by simp
  next
    case (Cons q qs)
    with Cons.IH have "set q \<subseteq> set cs" "\<forall>p \<in> set qs. set p \<subseteq> set cs" by simp_all
    with Cons show ?thesis by auto
  qed
qed

lemma Split_not_Nil: "Split s sep \<noteq> []"
  by (induction s) (auto split: list.splits)


lemma digitChar_values:
  "digitChar 0 = CHR ''0''" "digitChar 1 = CHR ''1''" "digitChar 2 = CHR ''2''"
  "digitChar 3 = CHR ''3''" "digitChar 4 = CHR ''4''" "digitChar 5 = CHR ''5''"
  "digitChar 6 = CHR ''6''" "digitChar 7 = CHR ''7''" "digitChar 8 = CHR ''8''"
  "digitChar 9 = CHR ''9''" "digitChar (Suc 0) = CHR ''1''"
  by (simp_all add: digitChar_def char_of_def bit_0)

text \<open>
  Claim C3 (byterange round trip), as the code has it. The count of the claim ranges
  over the values of the code's \<open>int64\<close> field: for every count from 0 to
  \<open>maxInt64\<close>, parsing its decimal string succeeds and formatting the result gives
  the string back (the offset 0 is not written); and for every byterange whose fields
  are \<open>int64\<close> values and whose offset is positive, parsing the formatted string
  \<open>count@offset\<close> gives the byterange back.
\<close>

theorem byterange_round_trip:
  "(0 \<le> c \<and> c \<le> maxInt64 \<longrightarrow>
      (\<exists>b. NewByterangeFromString (fmt_d c) = Inr b \<and> Byterange_String b = fmt_d c)) \<and>
   (inInt64 (Count b0) \<and> inInt64 (Offset b0) \<and> 0 < Offset b0 \<longrightarrow>
      NewByterangeFromString (Byterange_String b0) = Inr b0)"
proof (intro conjI impI)
  assume "0 \<le> c \<and> c \<le> maxInt64"
  then have "inInt64 c" by (simp add: inInt64_def minInt64_def)
  then have "NewByterangeFromString (fmt_d c) = Inr \<lparr>Count = c, Offset = 0\<rparr>"
    by (rule NewByterange_count_only)
  then show "\<exists>b. NewByterangeFromString (fmt_d c) = Inr b \<and> Byterange_String b = fmt_d c"
    by (simp add: Byterange_String_def)
next
  assume h: "inInt64 (Count b0) \<and> inInt64 (Offset b0) \<and> 0 < Offset b0"
  then show "NewByterangeFromString (Byterange_String b0) = Inr b0"
    using NewByterange_count_offset [of "Count b0" "Offset b0"]
    by (simp add: Byterange_String_def)
qed

text \<open>
  The hypotheses of C3 hold at the count 535192 and at the byterange 534220@1361.
\<close>

theorem byterange_round_trip_witness:
  "(\<exists>b. NewByterangeFromString ''535192'' = Inr b \<and> Byterange_String b = ''535192'') \<and>
   NewByterangeFromString (Byterange_String \<lparr>Count = 534220, Offset = 1361\<rparr>) =
     Inr \<lparr>Count = 534220, Offset = 1361\<rparr>"
proof -
  have f: "fmt_d 535192 = ''535192''"
    by (simp add: fmt_d_def digits.simps digitChar_values)
  show ?thesis
    using byterange_round_trip [of 535192 "\<lparr>Count = 534220, Offset = 1361\<rparr>"]
    by (simp add: f inInt64_def minInt64_def maxInt64_def)
qed

text \<open>
  C3 as stated fails at the count \<open>2^63\<close>: its decimal string is rejected with a
  range error, so there is nothing to format.
\<close>

theorem byterange_round_trip_counterexample:
  "fmt_d 9223372036854775808 = ''9223372036854775808'' \<and>
   NewByterangeFromString ''9223372036854775808'' = Inl (ErrInvalidByterangeCount ErrRange)"
  by (simp add: fmt_d_def digits.simps digitChar_values NewByterangeFromString_def ParseInt_def
      ParseUint_def isDigit_def digitVal_def maxUint64_def maxInt64_def)

text \<open>
  Claim C9 (byterange fields), as the code has it. The fields are signed 64-bit
  integers: whenever parsing succeeds, count and offset lie between \<open>minInt64\<close> and
  \<open>maxInt64\<close>, and they are non-negative when the input has no minus sign. Every
  negative \<open>int64\<close> count written in decimal, which starts with a minus sign, is
  accepted and gives that negative count with the offset 0.
\<close>

theorem byterange_fields_int64:
  "(NewByterangeFromString s = Inr b \<longrightarrow>
      inInt64 (Count b) \<and> inInt64 (Offset b) \<and>
      (CHR ''-'' \<notin> set s \<longrightarrow> 0 \<le> Count b \<and> 0 \<le> Offset b)) \<and>
   (c < 0 \<and> inInt64 c \<longrightarrow>
      NewByterangeFromString (fmt_d c) = Inr \<lparr>Count = c, Offset = 0\<rparr> \<and>
      take 1 (fmt_d c) = ''-'')"
proof -
  have c1: "NewByterangeFromString s = Inr b \<longrightarrow>
      inInt64 (Count b) \<and> inInt64 (Offset b) \<and>
      (CHR ''-'' \<notin> set s \<longrightarrow> 0 \<le> Count b \<and> 0 \<le> Offset b)"
  proof
    assume a: "NewByterangeFromString s = Inr b"
    let ?parts = "Split s (CHR ''@'')"
    have sub: "\<forall>p \<in> set ?parts. set p \<subseteq> set s" by (rule Split_subset)
    have ne: "?parts \<noteq> []" by (rule Split_not_Nil)
    then have p0: "?parts ! 0 \<in> set ?parts" by simp
    obtain c0 e0 where r0: "ParseInt (?parts ! 0) = (c0, e0)" by (cases "ParseInt (?parts ! 0)")
    show "inInt64 (Count b) \<and> inInt64 (Offset b) \<and>
      (CHR ''-'' \<notin> set s \<longrightarrow> 0 \<le> Count b \<and> 0 \<le> Offset b)"
    proof (cases "length ?parts = 2")
      case True
      then have p1: "?parts ! 1 \<in> set ?parts" by simp
      obtain c1 e1 where r1: "ParseInt (?parts ! 1) = (c1, e1)" by (cases "ParseInt (?parts ! 1)")
      from a True r0 r1 have e: "e0 = None" "e1 = None" and b: "b = \<lparr>Count = c0, Offset = c1\<rparr>"
        by (auto simp add: NewByterangeFromString_def Let_def split: if_splits option.splits)
      from r0 r1 e have "inInt64 c0" "inInt64 c1" by (auto dest: ParseInt_range)
      moreover have "0 \<le> c0 \<and> 0 \<le> c1" if "CHR ''-'' \<notin> set s"
      proof -
        from that sub p0 p1 have "CHR ''-'' \<notin> set (?parts ! 0)" "CHR ''-'' \<notin> set (?parts ! 1)"
          by blast+
        with r0 r1 e show ?thesis by (auto dest: ParseInt_nonneg)
      qed
      ultimately show ?thesis using b by simp
    next
      case False
      from a False r0 have e: "e0 = None" and b: "b = \<lparr>Count = c0, Offset = 0\<rparr>"
        by (auto simp add: NewByterangeFromString_def Let_def split: if_splits option.splits)
      from r0 e have "inInt64 c0" by (auto dest: ParseInt_range)
      moreover have "0 \<le> c0" if "CHR ''-'' \<notin> set s"
      proof -
        from that sub p0 have "CHR ''-'' \<notin> set (?parts ! 0)" by blast
        with r0 e show ?thesis by (auto dest: ParseInt_nonneg)
      qed
      ultimately show ?thesis using b by (simp add: inInt64_def minInt64_def maxInt64_def)
    qed
  qed
  have c2: "c < 0 \<and> inInt64 c \<longrightarrow>
      NewByterangeFromString (fmt_d c) = Inr \<lparr>Count = c, Offset = 0\<rparr> \<and>
      take 1 (fmt_d c) = ''-''"
  proof (intro impI conjI)
    assume h: "c < 0 \<and> inInt64 c"
    then show "NewByterangeFromString (fmt_d c) = Inr \<lparr>Count = c, Offset = 0\<rparr>"
      by (simp add: NewByterange_count_only)
    from h show "take 1 (fmt_d c) = ''-''" by (simp add: fmt_d_def)
  qed
  show ?thesis by (rule conjI [OF c1 c2])
qed

lemma NewByterange_534220_1361:
  "NewByterangeFromString ''534220@1361'' = Inr \<lparr>Count = 534220, Offset = 1361\<rparr>"
  by (simp add: NewByterangeFromString_def ParseInt_def ParseUint_def isDigit_def digitVal_def
      maxUint64_def)

text \<open>
  The hypotheses of C9 hold at the input 534220@1361 and at the count -534220.
\<close>

theorem byterange_fields_int64_witness:
  "NewByterangeFromString ''534220@1361'' = Inr \<lparr>Count = 534220, Offset = 1361\<rparr> \<and>
   inInt64 534220 \<and> inInt64 1361 \<and> CHR ''-'' \<notin> set ''534220@1361'' \<and>
   (0::int) \<le> 534220 \<and> (0::int) \<le> 1361 \<and>
   inInt64 (- 534220) \<and> fmt_d (- 534220) = ''-534220'' \<and>
   NewByterangeFromString ''-534220'' = Inr \<lparr>Count = - 534220, Offset = 0\<rparr>"
proof -
  have f: "fmt_d (- 534220) = ''-534220''"
    by (simp add: fmt_d_def digits.simps digitChar_values)
  have r: "inInt64 (- 534220)" by (simp add: inInt64_def minInt64_def maxInt64_def)
  show ?thesis
    using byterange_fields_int64 [of "''534220@1361''" "\<lparr>Count = 534220, Offset = 1361\<rparr>" "- 534220"]
    by (simp add: NewByterange_534220_1361 f r)
qed

text \<open>
  C9 as stated fails at the input \<open>-5\<close>: parsing succeeds with a negative count.
\<close>

theorem byterange_fields_counterexample:
  "NewByterangeFromString ''-5'' = Inr \<lparr>Count = - 5, Offset = 0\<rparr> \<and>
   Count \<lparr>Count = - 5, Offset = 0\<rparr> < 0"
  by (simp add: NewByterangeFromString_def ParseInt_def ParseUint_def isDigit_def digitVal_def
      maxUint64_def)

section \<open>Decoder: accepted and rejected playlists\<close>


lemmas eval_line_simps =
  scanLines.simps dropCR_def ParsePlaylistEntry_def TrimSpace_def trimLeft.simps
  trimLeftRev.simps isAsciiSpace_def isSpace2_def isSpace3_def reTag_def reComment_def

lemma isMediaPlaylist_iff: "isMediaPlaylist entries \<longleftrightarrow> extinfBeforeStreamInf entries"
proof (induction entries)
  case Nil
  show ?case by (simp add: extinfBeforeStreamInf_def)
next
  case (Cons a entries)
  show ?case
  proof (cases "IsTag a ''EXTINF''")
    case True
    have "a # entries = [] @ a # entries \<and> IsTag a ''EXTINF'' \<and>
          (\<forall>x \<in> set []. \<not> IsTag x ''EXT-X-STREAM-INF'')" using True by simp
    then have "extinfBeforeStreamInf (a # entries)"
      unfolding extinfBeforeStreamInf_def by blast
    with True show ?thesis by simp
  next
    case notinf: False
    show ?thesis
    proof (cases "IsTag a ''EXT-X-STREAM-INF''")
      case True
      have "\<not> extinfBeforeStreamInf (a # entries)"
      proof
        assume "extinfBeforeStreamInf (a # entries)"
        then obtain pre e post where d: "a # entries = pre @ e # post"
          and e: "IsTag e ''EXTINF''" and p: "\<forall>x \<in> set pre. \<not> IsTag x ''EXT-X-STREAM-INF''"
          unfolding extinfBeforeStreamInf_def by blast
        show False
        proof (cases pre)
          case Nil
          with d e notinf show False by simp
        next
          case (Cons b pre')
          with d p True show False by simp
        qed
      qed
      with notinf True show ?thesis by simp
    next
      case False
      have "extinfBeforeStreamInf (a # entries) \<longleftrightarrow> extinfBeforeStreamInf entries"
      proof
        assume "extinfBeforeStreamInf (a # entries)"
        then obtain pre e post where d: "a # entries = pre @ e # post"
          and e: "IsTag e ''EXTINF''" and p: "\<forall>x \<in> set pre. \<not> IsTag x ''EXT-X-STREAM-INF''"
          unfolding extinfBeforeStreamInf_def by blast
        show "extinfBeforeStreamInf entries"
        proof (cases pre)
          case Nil
          with d e notinf show ?thesis by simp
        next
          case (Cons b pre')
          with d p e have "entries = pre' @ e # post \<and> IsTag e ''EXTINF'' \<and>
             (\<forall>x \<in> set pre'. \<not> IsTag x ''EXT-X-STREAM-INF'')" by simp
          then show ?thesis unfolding extinfBeforeStreamInf_def by blast
        qed
      next
        assume "extinfBeforeStreamInf entries"
        then obtain pre e post where d: "entries = pre @ e # post"
          and e: "IsTag e ''EXTINF''" and p: "\<forall>x \<in> set pre. \<not> IsTag x ''EXT-X-STREAM-INF''"
          unfolding extinfBeforeStreamInf_def by blast
        with False have "a # entries = (a # pre) @ e # post \<and> IsTag e ''EXTINF'' \<and>
             (\<forall>x \<in> set (a # pre). \<not> IsTag x ''EXT-X-STREAM-INF'')" by simp
        then show "extinfBeforeStreamInf (a # entries)" unfolding extinfBeforeStreamInf_def by blast
      qed
      with notinf False Cons.IH show ?thesis by simp
    qed
  qed
qed

lemma decodeMediaPlaylist_Inr:
  "decodeMediaPlaylist fl entries = Inr t \<Longrightarrow>
     tracks t = [TrackChild \<lparr>track_name = [], track_kind = TrackKindVideo,
                   track_children = trackChildren (decodeLoop fl (initialState fl) entries),
                   track_metadata = mapSet [] metadataNamespace
                     (AMap (hlsMetadata (decodeLoop fl (initialState fl) entries)))\<rparr>]"
  by (auto simp add: decodeMediaPlaylist_def Let_def)

lemma decodeMediaPlaylist_total: "\<exists>t. decodeMediaPlaylist fl entries = Inr t"
  by (simp add: decodeMediaPlaylist_def Let_def)

lemma Decode_cases:
  "Decode fl input =
     (if snd (scanLines input) then Inl ErrReadingPlaylist
      else if length (collectEntries (fst (scanLines input))) = 0 \<or>
              \<not> IsTag (collectEntries (fst (scanLines input)) ! 0) ''EXTM3U''
      then Inl ErrNotValidM3U8
      else if isMediaPlaylist (collectEntries (fst (scanLines input)))
      then decodeMediaPlaylist fl (collectEntries (fst (scanLines input)))
      else Inl ErrUnsupportedPlaylistType)"
  by (simp add: Decode_def parsePlaylist_def Let_def)

lemma scan_invalid_text:
  "scanLines ''This is not a valid playlist'' = ([''This is not a valid playlist''], False)"
  by (simp add: scanLines.simps dropCR_def)

lemma entry_invalid_text:
  "ParsePlaylistEntry ''This is not a valid playlist'' =
     Some \<lparr>Type = EntryTypeURI, Tag = [], Value = [], URI = ''This is not a valid playlist''\<rparr>"
  by (simp add: eval_line_simps)

lemma scan_empty: "scanLines [] = ([], False)"
  by (simp add: scanLines.simps)

lemma Split_first:
  "sep \<in> set s \<Longrightarrow>
     Split s sep = takeWhile (\<lambda>c. c \<noteq> sep) s # Split (drop 1 (dropWhile (\<lambda>c. c \<noteq> sep) s)) sep"
proof (induction s)
  case Nil
  then show ?case by simp
next
  case (Cons c cs)
  show ?case
  proof (cases "c = sep")
    case True
    then show ?thesis by simp
  next
    case False
    with Cons.prems have "sep \<in> set cs" by simp
    from Cons.IH [OF this] False show ?thesis by simp
  qed
qed

lemma scanLines_fails_iff:
  "snd (scanLines data) \<longleftrightarrow> (\<exists>l \<in> set (Split data (CHR 0x0A)). 65536 \<le> length l)"
proof (induction data rule: scanLines.induct)
  case (1 data)
  let ?first = "takeWhile (\<lambda>c. c \<noteq> CHR 0x0A) data"
  let ?rest = "drop 1 (dropWhile (\<lambda>c. c \<noteq> CHR 0x0A) data)"
  show ?case
  proof (cases "data = []")
    case True
    then show ?thesis by (simp add: scanLines.simps)
  next
    case ne: False
    show ?thesis
    proof (cases "65536 \<le> length ?first")
      case True
      have l: "snd (scanLines data) = True"
        using ne True by (subst scanLines.simps) simp
      show ?thesis
      proof (cases "CHR 0x0A \<in> set data")
        case True
        from Split_first [OF this] \<open>65536 \<le> length ?first\<close> l show ?thesis by simp
      next
        case False
        then have "?first = data" by (auto simp add: takeWhile_eq_all_conv)
        with False True l show ?thesis by (simp add: Split_no_sep)
      qed
    next
      case short: False
      have l: "snd (scanLines data) = snd (scanLines ?rest)"
        using ne short by (subst scanLines.simps) (simp split: prod.splits)
      have ih: "snd (scanLines ?rest) \<longleftrightarrow>
                  (\<exists>l \<in> set (Split ?rest (CHR 0x0A)). 65536 \<le> length l)"
        using "1.IH" [OF ne short] .
      show ?thesis
      proof (cases "CHR 0x0A \<in> set data")
        case True
        from Split_first [OF this] short l ih show ?thesis by simp
      next
        case False
        then have f: "?first = data"
          by (auto simp add: takeWhile_eq_all_conv)
        from False have d: "dropWhile (\<lambda>c. c \<noteq> CHR 0x0A) data = []"
          by (auto simp add: dropWhile_eq_Nil_conv)
        have r: "?rest = []" unfolding d by simp
        from False have "Split data (CHR 0x0A) = [data]" by (rule Split_no_sep)
        with short f l r show ?thesis by (simp add: scanLines.simps)
      qed
    qed
  qed
qed

text \<open>
  Claim C1 (invalid input), as the code has it. When the scanner reads the input to its
  end without an error and the list of classified non-blank lines is empty or does not
  start with the \<open>EXTM3U\<close> tag, \<open>Decode\<close> fails with the invalid-playlist error and
  returns no timeline; so it does for the text \<open>This is not a valid playlist\<close> and
  for the empty input. The scanner fails exactly when some line of the input (the bytes
  between two line feeds) has 65536 bytes or more, and then \<open>Decode\<close> returns the read
  error instead, whatever the lines are.
\<close>

theorem Decode_invalid_playlist:
  "(\<not> snd (scanLines input) \<and>
      (length (collectEntries (fst (scanLines input))) = 0 \<or>
       \<not> IsTag (collectEntries (fst (scanLines input)) ! 0) ''EXTM3U'')
     \<longrightarrow> Decode fl input = Inl ErrNotValidM3U8) \<and>
   Decode fl ''This is not a valid playlist'' = Inl ErrNotValidM3U8 \<and>
   Decode fl [] = Inl ErrNotValidM3U8 \<and>
   (snd (scanLines data) \<longleftrightarrow> (\<exists>l \<in> set (Split data (CHR 0x0A)). 65536 \<le> length l)) \<and>
   (snd (scanLines data) \<longrightarrow> Decode fl data = Inl ErrReadingPlaylist)"
proof -
  have c1: "\<not> snd (scanLines input) \<and>
      (length (collectEntries (fst (scanLines input))) = 0 \<or>
       \<not> IsTag (collectEntries (fst (scanLines input)) ! 0) ''EXTM3U'')
     \<longrightarrow> Decode fl input = Inl ErrNotValidM3U8"
    by (auto simp add: Decode_cases)
  have c2: "Decode fl ''This is not a valid playlist'' = Inl ErrNotValidM3U8"
    by (simp add: Decode_cases scan_invalid_text entry_invalid_text IsTag_def)
  have c3: "Decode fl [] = Inl ErrNotValidM3U8"
    by (simp add: Decode_cases scan_empty)
  have c4: "snd (scanLines data) \<longleftrightarrow> (\<exists>l \<in> set (Split data (CHR 0x0A)). 65536 \<le> length l)"
    by (rule scanLines_fails_iff)
  have c5: "snd (scanLines data) \<longrightarrow> Decode fl data = Inl ErrReadingPlaylist"
    by (simp add: Decode_cases)
  show ?thesis by (rule conjI [OF c1 conjI [OF c2 conjI [OF c3 conjI [OF c4 c5]]]])
qed

lemma scan_comment: "scanLines ''# just a comment'' = ([''# just a comment''], False)"
  by (simp add: scanLines.simps dropCR_def)

lemma entry_comment:
  "ParsePlaylistEntry ''# just a comment'' =
     Some \<lparr>Type = EntryTypeComment, Tag = [], Value = '' just a comment'', URI = []\<rparr>"
  by (simp add: eval_line_simps)

lemma Split_line_70000:
  "Split (replicate 70000 (CHR ''a'')) (CHR 0x0A) = [replicate 70000 (CHR ''a'')]"
  by (rule Split_no_sep) simp

lemma scan_line_70000:
  "scanLines (replicate 70000 (CHR ''a'')) = ([], True)"
  by (subst scanLines.simps) simp

text \<open>
  The hypotheses of C1 hold at a playlist that is one comment line, and at an input of
  one line of 70000 bytes.
\<close>

theorem Decode_invalid_playlist_witness:
  "\<not> snd (scanLines ''# just a comment'') \<and>
   \<not> IsTag (collectEntries (fst (scanLines ''# just a comment'')) ! 0) ''EXTM3U'' \<and>
   Decode textFloats ''# just a comment'' = Inl ErrNotValidM3U8 \<and>
   snd (scanLines (replicate 70000 (CHR ''a''))) \<and>
   Split (replicate 70000 (CHR ''a'')) (CHR 0x0A) = [replicate 70000 (CHR ''a'')] \<and>
   Decode textFloats (replicate 70000 (CHR ''a'')) = Inl ErrReadingPlaylist"
  using Decode_invalid_playlist [of "''# just a comment''" textFloats "replicate 70000 (CHR ''a'')"]
  by (simp add: scan_comment entry_comment IsTag_def scan_line_70000 Split_line_70000)

lemma scan_long_line:
  "scanLines (replicate 100000 (CHR ''a'')) = ([], True)"
  by (subst scanLines.simps) (simp add: takeWhile_replicate)

text \<open>
  C1 as stated fails at an input of one line of 100000 bytes: the scanner stops with
  \<open>ErrTooLong\<close>, no line has been classified, and \<open>Decode\<close> returns the read error,
  which is not the invalid-playlist error.
\<close>

theorem Decode_invalid_playlist_counterexample:
  "collectEntries (fst (scanLines (replicate 100000 (CHR ''a'')))) = [] \<and>
   Decode textFloats (replicate 100000 (CHR ''a'')) = Inl ErrReadingPlaylist \<and>
   ErrReadingPlaylist \<noteq> ErrNotValidM3U8"
  by (simp add: Decode_cases scan_long_line)

text \<open>
  Claim C2 (master playlists are not decoded). For every entry list that
  \<open>parsePlaylist\<close> accepts (its first entry is the \<open>EXTM3U\<close> tag), \<open>Decode\<close>
  returns the unsupported-playlist-type error exactly when no \<open>EXTINF\<close> tag stands
  before the first \<open>EXT-X-STREAM-INF\<close> tag; in particular when no \<open>EXTINF\<close> tag
  occurs at all. Otherwise the result is that of media-playlist decoding, which always
  returns a timeline. The error differs from the invalid-playlist error.
\<close>

theorem Decode_unsupported:
  "parsePlaylist input = Inr entries \<Longrightarrow>
     (Decode fl input = Inl ErrUnsupportedPlaylistType \<longleftrightarrow> \<not> extinfBeforeStreamInf entries) \<and>
     (extinfBeforeStreamInf entries \<longrightarrow>
        Decode fl input = decodeMediaPlaylist fl entries \<and>
        (\<exists>t. decodeMediaPlaylist fl entries = Inr t)) \<and>
     ((\<forall>e \<in> set entries. \<not> IsTag e ''EXTINF'') \<longrightarrow>
        Decode fl input = Inl ErrUnsupportedPlaylistType) \<and>
     ErrUnsupportedPlaylistType \<noteq> ErrNotValidM3U8"
proof -
  assume p: "parsePlaylist input = Inr entries"
  have m: "isMediaPlaylist entries \<longleftrightarrow> extinfBeforeStreamInf entries"
    by (rule isMediaPlaylist_iff)
  obtain t where t: "decodeMediaPlaylist fl entries = Inr t"
    using decodeMediaPlaylist_total by blast
  have d: "Decode fl input =
      (if isMediaPlaylist entries then decodeMediaPlaylist fl entries
       else Inl ErrUnsupportedPlaylistType)"
    using p by (simp add: Decode_def)
  have none: "\<not> extinfBeforeStreamInf entries" if "\<forall>e \<in> set entries. \<not> IsTag e ''EXTINF''"
    using that unfolding extinfBeforeStreamInf_def by auto
  show ?thesis using d m t none by auto
qed


lemma parse_master_example:
  "parsePlaylist (joinLines [''#EXTM3U'', ''#EXT-X-STREAM-INF:BANDWIDTH=1280000'', ''v1/prog_index.m3u8''])
     = Inr [\<lparr>Type = EntryTypeTag, Tag = ''EXTM3U'', Value = [], URI = []\<rparr>,
            \<lparr>Type = EntryTypeTag, Tag = ''EXT-X-STREAM-INF'', Value = ''BANDWIDTH=1280000'', URI = []\<rparr>,
            \<lparr>Type = EntryTypeURI, Tag = [], Value = [], URI = ''v1/prog_index.m3u8''\<rparr>]"
  by (simp add: parsePlaylist_def joinLines_def eval_line_simps IsTag_def)

text \<open>
  C2 at a master playlist of one variant.
\<close>

theorem Decode_unsupported_witness:
  "parsePlaylist (joinLines [''#EXTM3U'', ''#EXT-X-STREAM-INF:BANDWIDTH=1280000'', ''v1/prog_index.m3u8''])
     = Inr [\<lparr>Type = EntryTypeTag, Tag = ''EXTM3U'', Value = [], URI = []\<rparr>,
            \<lparr>Type = EntryTypeTag, Tag = ''EXT-X-STREAM-INF'', Value = ''BANDWIDTH=1280000'', URI = []\<rparr>,
            \<lparr>Type = EntryTypeURI, Tag = [], Value = [], URI = ''v1/prog_index.m3u8''\<rparr>] \<and>
   Decode textFloats
     (joinLines [''#EXTM3U'', ''#EXT-X-STREAM-INF:BANDWIDTH=1280000'', ''v1/prog_index.m3u8''])
     = Inl ErrUnsupportedPlaylistType \<and>
   \<not> extinfBeforeStreamInf
     [\<lparr>Type = EntryTypeTag, Tag = ''EXTM3U'', Value = [], URI = []\<rparr>,
      \<lparr>Type = EntryTypeTag, Tag = ''EXT-X-STREAM-INF'', Value = ''BANDWIDTH=1280000'', URI = []\<rparr>,
      \<lparr>Type = EntryTypeURI, Tag = [], Value = [], URI = ''v1/prog_index.m3u8''\<rparr>]"
proof -
  have "Decode textFloats
     (joinLines [''#EXTM3U'', ''#EXT-X-STREAM-INF:BANDWIDTH=1280000'', ''v1/prog_index.m3u8''])
     = Inl ErrUnsupportedPlaylistType"
    by (simp add: Decode_def parse_master_example IsTag_def)
  then show ?thesis
    using Decode_unsupported [OF parse_master_example, of textFloats] parse_master_example
    by simp
qed

text \<open>
  Claim C10 (shape of the decoded timeline). Whenever \<open>Decode\<close> returns a timeline, it
  holds exactly one track, of kind Video and with the empty name, whatever the playlist
  describes.
\<close>

theorem Decode_single_video_track:
  "Decode fl input = Inr t \<Longrightarrow>
     (\<exists>tr. tracks t = [TrackChild tr] \<and> track_kind tr = TrackKindVideo \<and> track_name tr = [])"
proof -
  assume d: "Decode fl input = Inr t"
  then obtain entries where "decodeMediaPlaylist fl entries = Inr t"
    by (auto simp add: Decode_def split: sum.splits if_splits)
  then show ?thesis by (auto dest: decodeMediaPlaylist_Inr)
qed

lemma parse_audio_example:
  "parsePlaylist (joinLines [''#EXTM3U'', ''#EXTINF:9.9,'', ''audio_segment1.aac''])
     = Inr [\<lparr>Type = EntryTypeTag, Tag = ''EXTM3U'', Value = [], URI = []\<rparr>,
            \<lparr>Type = EntryTypeTag, Tag = ''EXTINF'', Value = ''9.9,'', URI = []\<rparr>,
            \<lparr>Type = EntryTypeURI, Tag = [], Value = [], URI = ''audio_segment1.aac''\<rparr>]"
  by (simp add: parsePlaylist_def joinLines_def eval_line_simps IsTag_def)

text \<open>
  C10 at a playlist whose only segment is an audio file.
\<close>

theorem Decode_single_video_track_witness:
  "\<exists>t. Decode textFloats (joinLines [''#EXTM3U'', ''#EXTINF:9.9,'', ''audio_segment1.aac'']) = Inr t \<and>
       (\<exists>tr. tracks t = [TrackChild tr] \<and> track_kind tr = TrackKindVideo \<and> track_name tr = [])"
proof -
  obtain t where t: "Decode textFloats (joinLines [''#EXTM3U'', ''#EXTINF:9.9,'', ''audio_segment1.aac'']) = Inr t"
    using decodeMediaPlaylist_total [of textFloats]
    by (auto simp add: Decode_def parse_audio_example IsTag_def)
  from Decode_single_video_track [OF t] t show ?thesis by blast
qed

section \<open>Decoder: the state of a pass\<close>


lemma map_of_mapSet: "map_of (mapSet m k v) = (map_of m)(k \<mapsto> v)"
  by (induction m) (auto simp add: fun_eq_iff)

lemma mapSet_not_Nil: "mapSet m k v \<noteq> []"
  by (cases m) auto



lemma createClip_disc:
  "discontinuityIndex (createClip fl uri d t br mu mb keyInfo pdt disc) = (if disc > 0 then disc else 0)"
  by (simp add: discontinuityIndex_def createClip_def Let_def lookupNamespace_def map_of_mapSet
      mapSet_not_Nil metadataNamespace_def streamingMetadataNamespace_def)

lemma IsTag_not_URI: "IsTag e n \<Longrightarrow> \<not> isURILine e"
  by (simp add: IsTag_def isURILine_def)

lemma decodeEntry_URI:
  "isURILine e \<Longrightarrow>
     decodeEntry fl st e =
       (case currentByterange st of
          Some b \<Rightarrow> st\<lparr>trackChildren := trackChildren st @
                         [createClip fl (URI e) (currentDuration st) (currentTitle st)
                            (currentByterange st) (mapURI st) (mapByterange st) (currentKey st)
                            (currentProgramDateTime st) (discontinuityCount st)],
                       lastByterangeEnd := add64 (Offset b) (Count b)\<rparr>
        | None \<Rightarrow> st\<lparr>trackChildren := trackChildren st @
                         [createClip fl (URI e) (currentDuration st) (currentTitle st)
                            (currentByterange st) (mapURI st) (mapByterange st) (currentKey st)
                            (currentProgramDateTime st) (discontinuityCount st)]\<rparr>)
       \<lparr>currentDuration := floatZero fl, currentTitle := [],
         currentByterange := None, currentProgramDateTime := []\<rparr>"
  by (simp add: decodeEntry_def isURILine_def IsTag_def Let_def split: option.splits)

lemma decodeEntry_children_quiet:
  "\<not> isURILine e \<Longrightarrow> trackChildren (decodeEntry fl st e) = trackChildren st"
  by (simp add: decodeEntry_def isURILine_def Let_def split: sum.splits)



lemma decodeLoop_append:
  "decodeLoop fl st (xs @ ys) = decodeLoop fl (decodeLoop fl st xs) ys"
  by (induction xs arbitrary: st) auto

lemma decodeLoop_children_quiet:
  "\<forall>e \<in> set m. \<not> isURILine e \<Longrightarrow> trackChildren (decodeLoop fl st m) = trackChildren st"
  by (induction m arbitrary: st) (auto simp add: decodeEntry_children_quiet)



lemma decodeEntry_URI_fields:
  assumes "isURILine u"
  shows "trackChildren (decodeEntry fl st u) = trackChildren st @
           [createClip fl (URI u) (currentDuration st) (currentTitle st)
              (currentByterange st) (mapURI st) (mapByterange st) (currentKey st)
              (currentProgramDateTime st) (discontinuityCount st)]"
    and "currentDuration (decodeEntry fl st u) = floatZero fl"
    and "currentTitle (decodeEntry fl st u) = []"
    and "currentByterange (decodeEntry fl st u) = None"
    and "currentProgramDateTime (decodeEntry fl st u) = []"
    and "currentKey (decodeEntry fl st u) = currentKey st"
    and "discontinuityCount (decodeEntry fl st u) = discontinuityCount st"
    and "mapURI (decodeEntry fl st u) = mapURI st"
    and "mapByterange (decodeEntry fl st u) = mapByterange st"
  using assms by (simp_all add: decodeEntry_URI split: option.splits)

lemmas eval_number_simps =
  NewByterangeFromString_def ParseInt_def ParseUint_def isDigit_def digitVal_def maxUint64_def

lemmas eval_trim_simps =
  TrimSpace_def trimLeft.simps trimLeftRev.simps isAsciiSpace_def isSpace2_def isSpace3_def


text \<open>
  The loop only appends segments, one for each URI line, and builds each from the
  variables as they are when its URI line is met.
\<close>

lemma children_run:
  "\<exists>new. trackChildren (decodeLoop fl st es) = trackChildren st @ new \<and>
         length new = length (filter isURILine es)"
proof (induction es arbitrary: st)
  case Nil
  show ?case by simp
next
  case (Cons e es)
  from Cons.IH [of "decodeEntry fl st e"] obtain new where
    n: "trackChildren (decodeLoop fl (decodeEntry fl st e) es) =
          trackChildren (decodeEntry fl st e) @ new"
       "length new = length (filter isURILine es)" by blast
  show ?case
  proof (cases "isURILine e")
    case True
    from decodeEntry_URI_fields(1) [OF True, of fl st] n True show ?thesis by simp
  next
    case False
    from decodeEntry_children_quiet [OF False, of fl st] n False show ?thesis by simp
  qed
qed

lemma clip_at:
  assumes u: "isURILine u"
  shows "trackChildren (decodeLoop fl st (pre @ u # post)) !
           (length (trackChildren st) + length (filter isURILine pre)) =
         createClip fl (URI u) (currentDuration (decodeLoop fl st pre))
           (currentTitle (decodeLoop fl st pre)) (currentByterange (decodeLoop fl st pre))
           (mapURI (decodeLoop fl st pre)) (mapByterange (decodeLoop fl st pre))
           (currentKey (decodeLoop fl st pre)) (currentProgramDateTime (decodeLoop fl st pre))
           (discontinuityCount (decodeLoop fl st pre))"
proof -
  let ?s = "decodeLoop fl st pre"
  let ?s' = "decodeEntry fl ?s u"
  obtain n1 where n1: "trackChildren ?s = trackChildren st @ n1"
    "length n1 = length (filter isURILine pre)"
    using children_run [of fl st pre] by blast
  obtain n2 where n2: "trackChildren (decodeLoop fl ?s' post) = trackChildren ?s' @ n2"
    using children_run [of fl ?s' post] by blast
  have run: "decodeLoop fl st (pre @ u # post) = decodeLoop fl ?s' post"
    by (simp add: decodeLoop_append)
  show ?thesis
    unfolding run n2 decodeEntry_URI_fields(1) [OF u] n1(1)
    using n1(2) by (simp add: nth_append)
qed

lemma stateAfter_snoc: "stateAfter fl (pre @ [e]) = decodeEntry fl (stateAfter fl pre) e"
  by (simp add: stateAfter_def decodeLoop_append)

lemma stateAfter_append: "stateAfter fl (pre @ m) = decodeLoop fl (stateAfter fl pre) m"
  by (simp add: stateAfter_def decodeLoop_append)

lemma stateAfter_Cons_append:
  "stateAfter fl (pre @ e # m) = decodeLoop fl (decodeEntry fl (stateAfter fl pre) e) m"
  by (simp add: stateAfter_def decodeLoop_append)

lemma segment_count:
  "length (trackChildren (stateAfter fl es)) = length (filter isURILine es)"
  using children_run [of fl "initialState fl" es]
  by (auto simp add: stateAfter_def initialState_def)

lemma segment_at:
  assumes u: "isURILine u"
  shows "trackChildren (stateAfter fl (pre @ u # post)) ! length (filter isURILine pre) =
         createClip fl (URI u) (currentDuration (stateAfter fl pre))
           (currentTitle (stateAfter fl pre)) (currentByterange (stateAfter fl pre))
           (mapURI (stateAfter fl pre)) (mapByterange (stateAfter fl pre))
           (currentKey (stateAfter fl pre)) (currentProgramDateTime (stateAfter fl pre))
           (discontinuityCount (stateAfter fl pre))"
  using clip_at [OF u, of fl "initialState fl" pre post]
  by (simp add: stateAfter_def initialState_def)

lemma Decode_track:
  assumes p: "parsePlaylist input = Inr es" and d: "Decode fl input = Inr t"
  shows "tracks t = [TrackChild \<lparr>track_name = [], track_kind = TrackKindVideo,
                   track_children = trackChildren (stateAfter fl es),
                   track_metadata = mapSet [] metadataNamespace
                     (AMap (hlsMetadata (stateAfter fl es)))\<rparr>]"
proof -
  from p d have m: "decodeMediaPlaylist fl es = Inr t"
    by (simp add: Decode_def split: if_splits)
  then show ?thesis unfolding stateAfter_def by (rule decodeMediaPlaylist_Inr)
qed









section \<open>Decoder: discontinuities\<close>


lemma decodeEntry_disc_count:
  "discontinuityCount (decodeEntry fl st e) =
     discontinuityCount st + (if IsTag e ''EXT-X-DISCONTINUITY'' then 1 else 0)"
  by (simp add: decodeEntry_def IsTag_def Let_def split: sum.splits option.splits)

lemma disc_run:
  assumes "0 \<le> discontinuityCount st"
  shows "\<exists>new. trackChildren (decodeLoop fl st es) = trackChildren st @ new \<and>
           length new = length (filter isURILine es) \<and>
           (\<forall>pre u post. es = pre @ u # post \<and> isURILine u \<longrightarrow>
               discontinuityIndex (new ! length (filter isURILine pre)) =
                 discontinuityCount st +
                 int (length (filter (\<lambda>e. IsTag e ''EXT-X-DISCONTINUITY'') pre))) \<and>
           (\<forall>c \<in> set new. discontinuityCount st \<le> discontinuityIndex c) \<and>
           sorted (map discontinuityIndex new)"
  using assms
proof (induction es arbitrary: st)
  case Nil
  show ?case by simp
next
  case (Cons e es)
  let ?st = "decodeEntry fl st e"
  let ?D = "\<lambda>e. IsTag e ''EXT-X-DISCONTINUITY''"
  have cnt: "discontinuityCount ?st = discontinuityCount st + (if ?D e then 1 else 0)"
    by (rule decodeEntry_disc_count)
  with Cons.prems have nonneg: "0 \<le> discontinuityCount ?st" by simp
  from Cons.IH [OF nonneg] obtain new where
    ch: "trackChildren (decodeLoop fl ?st es) = trackChildren ?st @ new"
    and len: "length new = length (filter isURILine es)"
    and idx: "\<And>pre u post. es = pre @ u # post \<Longrightarrow> isURILine u \<Longrightarrow>
               discontinuityIndex (new ! length (filter isURILine pre)) =
                 discontinuityCount ?st + int (length (filter ?D pre))"
    and lb: "\<And>c. c \<in> set new \<Longrightarrow> discontinuityCount ?st \<le> discontinuityIndex c"
    and srt: "sorted (map discontinuityIndex new)"
    by blast
  show ?case
  proof (cases "isURILine e")
    case True
    then have notD: "\<not> ?D e" using IsTag_not_URI by blast
    let ?c = "createClip fl (URI e) (currentDuration st) (currentTitle st)
              (currentByterange st) (mapURI st) (mapByterange st) (currentKey st)
              (currentProgramDateTime st) (discontinuityCount st)"
    have ch1: "trackChildren ?st = trackChildren st @ [?c]"
      using True by (rule decodeEntry_URI_fields(1))
    have ci: "discontinuityIndex ?c = discontinuityCount st"
      using Cons.prems by (simp add: createClip_disc)
    have same: "discontinuityCount ?st = discontinuityCount st" using cnt notD by simp
    have a: "trackChildren (decodeLoop fl st (e # es)) = trackChildren st @ (?c # new)"
      using ch ch1 by simp
    have b: "length (?c # new) = length (filter isURILine (e # es))" using len True by simp
    have c: "discontinuityIndex ((?c # new) ! length (filter isURILine pre)) =
               discontinuityCount st + int (length (filter ?D pre))"
      if d: "e # es = pre @ u # post" and u: "isURILine u" for pre u post
    proof (cases pre)
      case Nil
      then show ?thesis using ci by simp
    next
      case (Cons x pre')
      with d have x: "x = e" and es: "es = pre' @ u # post" by simp_all
      from idx [OF es u] same have
        "discontinuityIndex (new ! length (filter isURILine pre')) =
           discontinuityCount st + int (length (filter ?D pre'))" by simp
      then show ?thesis using Cons x True notD by simp
    qed
    have d: "\<forall>c \<in> set (?c # new). discontinuityCount st \<le> discontinuityIndex c"
      using ci lb same by auto
    have e': "sorted (map discontinuityIndex (?c # new))"
      using srt ci lb same by auto
    from a b c d e' show ?thesis by blast
  next
    case False
    have ch1: "trackChildren ?st = trackChildren st"
      using False by (rule decodeEntry_children_quiet)
    have a: "trackChildren (decodeLoop fl st (e # es)) = trackChildren st @ new"
      using ch ch1 by simp
    have b: "length new = length (filter isURILine (e # es))" using len False by simp
    have c: "discontinuityIndex (new ! length (filter isURILine pre)) =
               discontinuityCount st + int (length (filter ?D pre))"
      if d: "e # es = pre @ u # post" and u: "isURILine u" for pre u post
    proof (cases pre)
      case Nil
      with d u False show ?thesis by simp
    next
      case (Cons x pre')
      with d have x: "x = e" and es: "es = pre' @ u # post" by simp_all
      from idx [OF es u] cnt have
        "discontinuityIndex (new ! length (filter isURILine pre')) =
           discontinuityCount st + (if ?D e then 1 else 0) + int (length (filter ?D pre'))"
        by simp
      then show ?thesis using Cons x False by simp
    qed
    have d: "\<forall>c \<in> set new. discontinuityCount st \<le> discontinuityIndex c"
    proof
      fix c assume "c \<in> set new"
      from lb [OF this] cnt show "discontinuityCount st \<le> discontinuityIndex c"
        by (simp split: if_splits)
    qed
    from a b c d srt show ?thesis by blast
  qed
qed

text \<open>
  Claim C6 (discontinuity index). For every media playlist that \<open>Decode\<close> accepts,
  the track has one segment for each URI line, in order, and the discontinuity index of
  the segment of a URI line (0 when the metadata key is absent) is the number of
  \<open>EXT-X-DISCONTINUITY\<close> tags before that line. Hence from one segment to the next
  the index rises by the number of such tags between their URI lines, by 1 for each
  tag, and the indices of the segments are non-decreasing.
\<close>

theorem discontinuity_index_counts_tags:
  "parsePlaylist input = Inr es \<Longrightarrow> Decode fl input = Inr t \<Longrightarrow>
     (\<exists>tr. tracks t = [TrackChild tr] \<and>
        length (track_children tr) = length (filter isURILine es) \<and>
        (\<forall>pre u post. es = pre @ u # post \<and> isURILine u \<longrightarrow>
           discontinuityIndex (track_children tr ! length (filter isURILine pre)) =
             int (length (filter (\<lambda>e. IsTag e ''EXT-X-DISCONTINUITY'') pre))) \<and>
        (\<forall>pre u1 mid u2 post.
           es = pre @ u1 # mid @ u2 # post \<and> isURILine u1 \<and> isURILine u2 \<and>
           (\<forall>e \<in> set mid. \<not> isURILine e) \<longrightarrow>
           discontinuityIndex (track_children tr ! (length (filter isURILine pre) + 1)) =
             discontinuityIndex (track_children tr ! length (filter isURILine pre)) +
             int (length (filter (\<lambda>e. IsTag e ''EXT-X-DISCONTINUITY'') mid))) \<and>
        sorted (map discontinuityIndex (track_children tr)))"
proof -
  assume p: "parsePlaylist input = Inr es" and d: "Decode fl input = Inr t"
  let ?D = "\<lambda>e. IsTag e ''EXT-X-DISCONTINUITY''"
  let ?st = "decodeLoop fl (initialState fl) es"
  from p d have m: "decodeMediaPlaylist fl es = Inr t"
    by (simp add: Decode_def split: if_splits)
  let ?tr = "\<lparr>track_name = [], track_kind = TrackKindVideo,
               track_children = trackChildren ?st,
               track_metadata = mapSet [] metadataNamespace (AMap (hlsMetadata ?st))\<rparr>"
  have tr: "tracks t = [TrackChild ?tr]" using m by (rule decodeMediaPlaylist_Inr)
  have z: "0 \<le> discontinuityCount (initialState fl)" by (simp add: initialState_def)
  from disc_run [OF z, of fl es] obtain new where
    ch: "trackChildren ?st = trackChildren (initialState fl) @ new"
    and len: "length new = length (filter isURILine es)"
    and idx: "\<And>pre u post. es = pre @ u # post \<Longrightarrow> isURILine u \<Longrightarrow>
               discontinuityIndex (new ! length (filter isURILine pre)) =
                 discontinuityCount (initialState fl) + int (length (filter ?D pre))"
    and srt: "sorted (map discontinuityIndex new)"
    by blast
  have new: "trackChildren ?st = new" using ch by (simp add: initialState_def)
  have i0: "discontinuityIndex (new ! length (filter isURILine pre)) = int (length (filter ?D pre))"
    if "es = pre @ u # post" "isURILine u" for pre u post
    using idx [OF that] by (simp add: initialState_def)
  have i1: "discontinuityIndex (new ! (length (filter isURILine pre) + 1)) =
             discontinuityIndex (new ! length (filter isURILine pre)) + int (length (filter ?D mid))"
    if e: "es = pre @ u1 # mid @ u2 # post" and u1: "isURILine u1" and u2: "isURILine u2"
      and q: "\<forall>e \<in> set mid. \<not> isURILine e" for pre u1 mid u2 post
  proof -
    have e2: "es = (pre @ u1 # mid) @ u2 # post" using e by simp
    have f: "filter isURILine mid = []" using q by (simp add: filter_empty_conv)
    have nd: "\<not> ?D u1" using u1 IsTag_not_URI by blast
    from i0 [OF e2 u2] i0 [OF e u1] f u1 nd show ?thesis by simp
  qed
  have tc: "track_children ?tr = new" using new by simp
  have r1: "length (track_children ?tr) = length (filter isURILine es)"
    unfolding tc by (rule len)
  have r2: "\<forall>pre u post. es = pre @ u # post \<and> isURILine u \<longrightarrow>
           discontinuityIndex (track_children ?tr ! length (filter isURILine pre)) =
             int (length (filter ?D pre))"
    unfolding tc using i0 by blast
  have r3: "\<forall>pre u1 mid u2 post.
           es = pre @ u1 # mid @ u2 # post \<and> isURILine u1 \<and> isURILine u2 \<and>
           (\<forall>e \<in> set mid. \<not> isURILine e) \<longrightarrow>
           discontinuityIndex (track_children ?tr ! (length (filter isURILine pre) + 1)) =
             discontinuityIndex (track_children ?tr ! length (filter isURILine pre)) +
             int (length (filter ?D mid))"
    unfolding tc using i1 by blast
  have r4: "sorted (map discontinuityIndex (track_children ?tr))"
    unfolding tc by (rule srt)
  show ?thesis
    by (rule exI [of _ ?tr]) (intro conjI tr r1 r2 r3 r4)
qed


lemma parse_discontinuity_example:
  "parsePlaylist (joinLines [''#EXTM3U'', ''#EXTINF:9.9,'', ''segment1.ts'',
      ''#EXT-X-DISCONTINUITY'', ''#EXTINF:9.9,'', ''segment2.ts'',
      ''#EXT-X-DISCONTINUITY'', ''#EXTINF:9.9,'', ''segment3.ts'', ''#EXT-X-ENDLIST''])
   = Inr [tagEntry ''EXTM3U'' [], tagEntry ''EXTINF'' ''9.9,'', uriEntry ''segment1.ts'',
          tagEntry ''EXT-X-DISCONTINUITY'' [], tagEntry ''EXTINF'' ''9.9,'', uriEntry ''segment2.ts'',
          tagEntry ''EXT-X-DISCONTINUITY'' [], tagEntry ''EXTINF'' ''9.9,'', uriEntry ''segment3.ts'',
          tagEntry ''EXT-X-ENDLIST'' []]"
  by (simp add: parsePlaylist_def joinLines_def eval_line_simps IsTag_def tagEntry_def uriEntry_def)

text \<open>
  C6 at the playlist of the test: three segments, a discontinuity tag before the second
  and before the third.
\<close>

theorem discontinuity_index_counts_tags_witness:
  "\<exists>t tr. Decode textFloats (joinLines [''#EXTM3U'', ''#EXTINF:9.9,'', ''segment1.ts'',
      ''#EXT-X-DISCONTINUITY'', ''#EXTINF:9.9,'', ''segment2.ts'',
      ''#EXT-X-DISCONTINUITY'', ''#EXTINF:9.9,'', ''segment3.ts'', ''#EXT-X-ENDLIST'']) = Inr t \<and>
     tracks t = [TrackChild tr] \<and> length (track_children tr) = 3 \<and>
     discontinuityIndex (track_children tr ! 0) = 0 \<and>
     discontinuityIndex (track_children tr ! 1) = 1 \<and>
     discontinuityIndex (track_children tr ! 2) = 2 \<and>
     sorted (map discontinuityIndex (track_children tr))"
proof -
  let ?X = "joinLines [''#EXTM3U'', ''#EXTINF:9.9,'', ''segment1.ts'',
      ''#EXT-X-DISCONTINUITY'', ''#EXTINF:9.9,'', ''segment2.ts'',
      ''#EXT-X-DISCONTINUITY'', ''#EXTINF:9.9,'', ''segment3.ts'', ''#EXT-X-ENDLIST'']"
  let ?E = "[tagEntry ''EXTM3U'' [], tagEntry ''EXTINF'' ''9.9,'', uriEntry ''segment1.ts'',
          tagEntry ''EXT-X-DISCONTINUITY'' [], tagEntry ''EXTINF'' ''9.9,'', uriEntry ''segment2.ts'',
          tagEntry ''EXT-X-DISCONTINUITY'' [], tagEntry ''EXTINF'' ''9.9,'', uriEntry ''segment3.ts'',
          tagEntry ''EXT-X-ENDLIST'' []]"
  obtain t where t: "Decode textFloats ?X = Inr t"
    using decodeMediaPlaylist_total [of textFloats]
    by (auto simp add: Decode_def parse_discontinuity_example IsTag_def tagEntry_def uriEntry_def)
  from discontinuity_index_counts_tags [OF parse_discontinuity_example t]
  obtain tr where h: "tracks t = [TrackChild tr] \<and>
        length (track_children tr) = length (filter isURILine ?E) \<and>
        (\<forall>pre u post. ?E = pre @ u # post \<and> isURILine u \<longrightarrow>
           discontinuityIndex (track_children tr ! length (filter isURILine pre)) =
             int (length (filter (\<lambda>e. IsTag e ''EXT-X-DISCONTINUITY'') pre))) \<and>
        (\<forall>pre u1 mid u2 post.
           ?E = pre @ u1 # mid @ u2 # post \<and> isURILine u1 \<and> isURILine u2 \<and>
           (\<forall>e \<in> set mid. \<not> isURILine e) \<longrightarrow>
           discontinuityIndex (track_children tr ! (length (filter isURILine pre) + 1)) =
             discontinuityIndex (track_children tr ! length (filter isURILine pre)) +
             int (length (filter (\<lambda>e. IsTag e ''EXT-X-DISCONTINUITY'') mid))) \<and>
        sorted (map discontinuityIndex (track_children tr))"
    by (rule exE)
  note tr = h [THEN conjunct1]
  note len = h [THEN conjunct2, THEN conjunct1]
  note idx = h [THEN conjunct2, THEN conjunct2, THEN conjunct1, rule_format, OF conjI]
  note srt = h [THEN conjunct2, THEN conjunct2, THEN conjunct2, THEN conjunct2]
  have l: "length (track_children tr) = 3"
    using len by (simp add: isURILine_def tagEntry_def uriEntry_def)
  have i0: "discontinuityIndex (track_children tr ! 0) = 0"
    using idx [of "[tagEntry ''EXTM3U'' [], tagEntry ''EXTINF'' ''9.9,'']" "uriEntry ''segment1.ts''"
        "[tagEntry ''EXT-X-DISCONTINUITY'' [], tagEntry ''EXTINF'' ''9.9,'', uriEntry ''segment2.ts'',
          tagEntry ''EXT-X-DISCONTINUITY'' [], tagEntry ''EXTINF'' ''9.9,'', uriEntry ''segment3.ts'',
          tagEntry ''EXT-X-ENDLIST'' []]"]
    by (simp add: isURILine_def IsTag_def tagEntry_def uriEntry_def)
  have i1: "discontinuityIndex (track_children tr ! 1) = 1"
    using idx [of "[tagEntry ''EXTM3U'' [], tagEntry ''EXTINF'' ''9.9,'', uriEntry ''segment1.ts'',
          tagEntry ''EXT-X-DISCONTINUITY'' [], tagEntry ''EXTINF'' ''9.9,'']" "uriEntry ''segment2.ts''"
        "[tagEntry ''EXT-X-DISCONTINUITY'' [], tagEntry ''EXTINF'' ''9.9,'', uriEntry ''segment3.ts'',
          tagEntry ''EXT-X-ENDLIST'' []]"]
    by (simp add: isURILine_def IsTag_def tagEntry_def uriEntry_def)
  have i2: "discontinuityIndex (track_children tr ! 2) = 2"
    using idx [of "[tagEntry ''EXTM3U'' [], tagEntry ''EXTINF'' ''9.9,'', uriEntry ''segment1.ts'',
          tagEntry ''EXT-X-DISCONTINUITY'' [], tagEntry ''EXTINF'' ''9.9,'', uriEntry ''segment2.ts'',
          tagEntry ''EXT-X-DISCONTINUITY'' [], tagEntry ''EXTINF'' ''9.9,'']" "uriEntry ''segment3.ts''"
        "[tagEntry ''EXT-X-ENDLIST'' []]"]
    by (simp add: isURILine_def IsTag_def tagEntry_def uriEntry_def numeral_2_eq_2)
  show ?thesis
    by (rule exI [of _ t], rule exI [of _ tr]) (use t tr l i0 i1 i2 srt in simp)
qed

section \<open>Decoder: contiguous byteranges\<close>

lemma decodeEntry_BYTERANGE:
  "IsTag e ''EXT-X-BYTERANGE'' \<Longrightarrow> NewByterangeFromString (TrimSpace (Value e)) = Inr br \<Longrightarrow>
     decodeEntry fl st e =
       st\<lparr>currentByterange :=
            Some (if Offset br = 0 \<and> 0 < lastByterangeEnd st
                  then br\<lparr>Offset := lastByterangeEnd st\<rparr> else br)\<rparr>"
  by (simp add: decodeEntry_def IsTag_def)

lemma decodeEntry_lastByterangeEnd:
  "lastByterangeEnd (decodeEntry fl st x) =
     (if isURILine x
      then (case currentByterange st of
              Some b \<Rightarrow> add64 (Offset b) (Count b)
            | None \<Rightarrow> lastByterangeEnd st)
      else lastByterangeEnd st)"
  by (simp add: decodeEntry_def isURILine_def IsTag_def Let_def split: sum.splits option.splits)

lemma decodeEntry_byterange_quiet:
  "\<not> isURILine e \<Longrightarrow> \<not> IsTag e ''EXT-X-BYTERANGE'' \<Longrightarrow>
     currentByterange (decodeEntry fl st e) = currentByterange st"
  by (simp add: decodeEntry_def isURILine_def Let_def split: sum.splits option.splits)

lemma decodeLoop_byterange_quiet:
  "\<forall>e \<in> set m. \<not> isURILine e \<and> \<not> IsTag e ''EXT-X-BYTERANGE'' \<Longrightarrow>
     currentByterange (decodeLoop fl st m) = currentByterange st \<and>
     lastByterangeEnd (decodeLoop fl st m) = lastByterangeEnd st"
  by (induction m arbitrary: st)
     (auto simp add: decodeEntry_byterange_quiet decodeEntry_lastByterangeEnd)

lemma createClip_byterange:
  "byteOffset (createClip fl uri d t (Some b) mu mb keyInfo pdt disc) = Some (Offset b) \<and>
   byteCount (createClip fl uri d t (Some b) mu mb keyInfo pdt disc) = Some (Count b)"
  by (simp add: byteOffset_def byteCount_def createClip_def Let_def lookupNamespace_def
      map_of_mapSet mapSet_not_Nil metadataNamespace_def streamingMetadataNamespace_def
      split: option.splits)


lemma add64_exact: "inInt64 (a + b) \<Longrightarrow> add64 a b = a + b"
  by (simp add: add64_def wrap64_def inInt64_def minInt64_def maxInt64_def)

lemma byterange_after_tag:
  assumes b: "IsTag b ''EXT-X-BYTERANGE''"
    and p: "NewByterangeFromString (TrimSpace (Value b)) = Inr r"
    and q: "\<forall>e \<in> set m. \<not> isURILine e \<and> \<not> IsTag e ''EXT-X-BYTERANGE''"
  shows "currentByterange (stateAfter fl (pre @ b # m)) =
           Some (if Offset r = 0 \<and> 0 < lastByterangeEnd (stateAfter fl pre)
                 then r\<lparr>Offset := lastByterangeEnd (stateAfter fl pre)\<rparr> else r)"
    and "lastByterangeEnd (stateAfter fl (pre @ b # m)) = lastByterangeEnd (stateAfter fl pre)"
  unfolding stateAfter_Cons_append
  by (simp_all add: decodeLoop_byterange_quiet [OF q] decodeEntry_BYTERANGE [OF b p])

lemma end_after_segment:
  assumes u: "isURILine u"
    and q: "\<forall>e \<in> set m. \<not> isURILine e \<and> \<not> IsTag e ''EXT-X-BYTERANGE''"
    and c: "currentByterange (stateAfter fl pre) = Some r"
  shows "lastByterangeEnd (stateAfter fl (pre @ u # m)) = add64 (Offset r) (Count r)"
  unfolding stateAfter_Cons_append
  by (simp add: decodeLoop_byterange_quiet [OF q] decodeEntry_lastByterangeEnd u c)

text \<open>
  Claim C7 (contiguous byterange inference), as the code has it. First: an
  \<open>EXT-X-BYTERANGE\<close> tag that parses stages its byterange, with the offset replaced
  by \<open>lastByterangeEnd\<close> when the parsed offset is 0 and \<open>lastByterangeEnd\<close> is
  positive, and leaves \<open>lastByterangeEnd\<close> as it was. Second: an entry changes
  \<open>lastByterangeEnd\<close> only when it is a URI line and a byterange is staged, and then
  to the \<open>int64\<close> sum of offset and count (\<open>add64\<close>, which wraps around). Third:
  in every media playlist that \<open>Decode\<close> accepts, for two consecutive byteranged
  segments, the first of offset \<open>o1\<close>, the offset of the second is that
  \<open>int64\<close> sum of \<open>o1\<close> and the first count when the second tag parses with
  offset 0 and the sum is positive, and the offset the second tag parses to otherwise.
  The \<open>int64\<close> sum is offset plus count whenever that lies between \<open>minInt64\<close>
  and \<open>maxInt64\<close>. Entries that are neither URI lines nor byterange tags may stand
  between the tags and the URI lines, and any entries before and after.
\<close>

theorem contiguous_byterange_inference:
  "parsePlaylist input = Inr es \<Longrightarrow> Decode fl input = Inr t \<Longrightarrow>
     (\<exists>tr. tracks t = [TrackChild tr] \<and>
        length (track_children tr) = length (filter isURILine es) \<and>
        (IsTag e ''EXT-X-BYTERANGE'' \<and> NewByterangeFromString (TrimSpace (Value e)) = Inr br \<longrightarrow>
           currentByterange (stateAfter fl (pre @ [e])) =
             Some (if Offset br = 0 \<and> 0 < lastByterangeEnd (stateAfter fl pre)
                   then br\<lparr>Offset := lastByterangeEnd (stateAfter fl pre)\<rparr> else br) \<and>
           lastByterangeEnd (stateAfter fl (pre @ [e])) = lastByterangeEnd (stateAfter fl pre)) \<and>
        lastByterangeEnd (stateAfter fl (xpre @ [x])) =
          (if isURILine x
           then (case currentByterange (stateAfter fl xpre) of
                   Some b \<Rightarrow> add64 (Offset b) (Count b)
                 | None \<Rightarrow> lastByterangeEnd (stateAfter fl xpre))
           else lastByterangeEnd (stateAfter fl xpre)) \<and>
        (es = bpre @ b1 # m1 @ u1 # m2 @ b2 # m3 @ u2 # bpost \<and>
         IsTag b1 ''EXT-X-BYTERANGE'' \<and> NewByterangeFromString (TrimSpace (Value b1)) = Inr r1 \<and>
         IsTag b2 ''EXT-X-BYTERANGE'' \<and> NewByterangeFromString (TrimSpace (Value b2)) = Inr r2 \<and>
         isURILine u1 \<and> isURILine u2 \<and>
         (\<forall>e \<in> set m1 \<union> set m2 \<union> set m3. \<not> isURILine e \<and> \<not> IsTag e ''EXT-X-BYTERANGE'') \<and>
         o1 = (if Offset r1 = 0 \<and> 0 < lastByterangeEnd (stateAfter fl bpre)
               then lastByterangeEnd (stateAfter fl bpre) else Offset r1) \<longrightarrow>
           byteOffset (track_children tr ! length (filter isURILine bpre)) = Some o1 \<and>
           byteCount (track_children tr ! length (filter isURILine bpre)) = Some (Count r1) \<and>
           byteCount (track_children tr ! (length (filter isURILine bpre) + 1)) = Some (Count r2) \<and>
           byteOffset (track_children tr ! (length (filter isURILine bpre) + 1)) =
             Some (if Offset r2 = 0 \<and> 0 < add64 o1 (Count r1)
                   then add64 o1 (Count r1) else Offset r2) \<and>
           (inInt64 (o1 + Count r1) \<longrightarrow> add64 o1 (Count r1) = o1 + Count r1)))"
proof -
  assume pp: "parsePlaylist input = Inr es" and d: "Decode fl input = Inr t"
  let ?tr = "\<lparr>track_name = [], track_kind = TrackKindVideo,
               track_children = trackChildren (stateAfter fl es),
               track_metadata = mapSet [] metadataNamespace (AMap (hlsMetadata (stateAfter fl es)))\<rparr>"
  have tr: "tracks t = [TrackChild ?tr]" using pp d by (rule Decode_track)
  have tc: "track_children ?tr = trackChildren (stateAfter fl es)" by simp
  have r0: "length (track_children ?tr) = length (filter isURILine es)"
    unfolding tc by (rule segment_count)
  have r1: "IsTag e ''EXT-X-BYTERANGE'' \<and> NewByterangeFromString (TrimSpace (Value e)) = Inr br \<longrightarrow>
           currentByterange (stateAfter fl (pre @ [e])) =
             Some (if Offset br = 0 \<and> 0 < lastByterangeEnd (stateAfter fl pre)
                   then br\<lparr>Offset := lastByterangeEnd (stateAfter fl pre)\<rparr> else br) \<and>
           lastByterangeEnd (stateAfter fl (pre @ [e])) = lastByterangeEnd (stateAfter fl pre)"
    unfolding stateAfter_snoc by (simp add: decodeEntry_BYTERANGE)
  have r2: "lastByterangeEnd (stateAfter fl (xpre @ [x])) =
          (if isURILine x
           then (case currentByterange (stateAfter fl xpre) of
                   Some b \<Rightarrow> add64 (Offset b) (Count b)
                 | None \<Rightarrow> lastByterangeEnd (stateAfter fl xpre))
           else lastByterangeEnd (stateAfter fl xpre))"
    unfolding stateAfter_snoc by (rule decodeEntry_lastByterangeEnd)
  have r3: "es = bpre @ b1 # m1 @ u1 # m2 @ b2 # m3 @ u2 # bpost \<and>
         IsTag b1 ''EXT-X-BYTERANGE'' \<and> NewByterangeFromString (TrimSpace (Value b1)) = Inr r1 \<and>
         IsTag b2 ''EXT-X-BYTERANGE'' \<and> NewByterangeFromString (TrimSpace (Value b2)) = Inr r2 \<and>
         isURILine u1 \<and> isURILine u2 \<and>
         (\<forall>e \<in> set m1 \<union> set m2 \<union> set m3. \<not> isURILine e \<and> \<not> IsTag e ''EXT-X-BYTERANGE'') \<and>
         o1 = (if Offset r1 = 0 \<and> 0 < lastByterangeEnd (stateAfter fl bpre)
               then lastByterangeEnd (stateAfter fl bpre) else Offset r1) \<longrightarrow>
           byteOffset (track_children ?tr ! length (filter isURILine bpre)) = Some o1 \<and>
           byteCount (track_children ?tr ! length (filter isURILine bpre)) = Some (Count r1) \<and>
           byteCount (track_children ?tr ! (length (filter isURILine bpre) + 1)) = Some (Count r2) \<and>
           byteOffset (track_children ?tr ! (length (filter isURILine bpre) + 1)) =
             Some (if Offset r2 = 0 \<and> 0 < add64 o1 (Count r1)
                   then add64 o1 (Count r1) else Offset r2) \<and>
           (inInt64 (o1 + Count r1) \<longrightarrow> add64 o1 (Count r1) = o1 + Count r1)"
  proof (intro impI)
    assume h: "es = bpre @ b1 # m1 @ u1 # m2 @ b2 # m3 @ u2 # bpost \<and>
         IsTag b1 ''EXT-X-BYTERANGE'' \<and> NewByterangeFromString (TrimSpace (Value b1)) = Inr r1 \<and>
         IsTag b2 ''EXT-X-BYTERANGE'' \<and> NewByterangeFromString (TrimSpace (Value b2)) = Inr r2 \<and>
         isURILine u1 \<and> isURILine u2 \<and>
         (\<forall>e \<in> set m1 \<union> set m2 \<union> set m3. \<not> isURILine e \<and> \<not> IsTag e ''EXT-X-BYTERANGE'') \<and>
         o1 = (if Offset r1 = 0 \<and> 0 < lastByterangeEnd (stateAfter fl bpre)
               then lastByterangeEnd (stateAfter fl bpre) else Offset r1)"
    then have e: "es = bpre @ b1 # m1 @ u1 # m2 @ b2 # m3 @ u2 # bpost"
      and b1: "IsTag b1 ''EXT-X-BYTERANGE''"
      and p1: "NewByterangeFromString (TrimSpace (Value b1)) = Inr r1"
      and b2: "IsTag b2 ''EXT-X-BYTERANGE''"
      and p2: "NewByterangeFromString (TrimSpace (Value b2)) = Inr r2"
      and u1: "isURILine u1" and u2: "isURILine u2"
      and q1: "\<forall>e \<in> set m1. \<not> isURILine e \<and> \<not> IsTag e ''EXT-X-BYTERANGE''"
      and q2: "\<forall>e \<in> set m2. \<not> isURILine e \<and> \<not> IsTag e ''EXT-X-BYTERANGE''"
      and q3: "\<forall>e \<in> set m3. \<not> isURILine e \<and> \<not> IsTag e ''EXT-X-BYTERANGE''"
      and o1: "o1 = (if Offset r1 = 0 \<and> 0 < lastByterangeEnd (stateAfter fl bpre)
                     then lastByterangeEnd (stateAfter fl bpre) else Offset r1)"
      by auto
    from q1 q2 q3 have f1: "filter isURILine m1 = []" and f2: "filter isURILine m2 = []"
      and f3: "filter isURILine m3 = []" by (simp_all add: filter_empty_conv)
    have nb1: "\<not> isURILine b1" using b1 by (rule IsTag_not_URI)
    have nb2: "\<not> isURILine b2" using b2 by (rule IsTag_not_URI)
    let ?p1 = "bpre @ b1 # m1"
    let ?p2 = "bpre @ b1 # m1 @ u1 # m2"
    let ?p3 = "bpre @ b1 # m1 @ u1 # m2 @ b2 # m3"
    let ?r1 = "if Offset r1 = 0 \<and> 0 < lastByterangeEnd (stateAfter fl bpre)
               then r1\<lparr>Offset := lastByterangeEnd (stateAfter fl bpre)\<rparr> else r1"
    have r1: "Offset ?r1 = o1" "Count ?r1 = Count r1" using o1 by simp_all
    have e1: "es = ?p1 @ u1 # (m2 @ b2 # m3 @ u2 # bpost)" using e by simp
    have e3: "es = ?p3 @ u2 # bpost" using e by simp
    have n1: "length (filter isURILine ?p1) = length (filter isURILine bpre)"
      using nb1 f1 by simp
    have n3: "length (filter isURILine ?p3) = length (filter isURILine bpre) + 1"
      using nb1 nb2 u1 f1 f2 f3 by simp
    have s1: "currentByterange (stateAfter fl ?p1) = Some ?r1"
      using b1 p1 q1 by (rule byterange_after_tag(1))
    have s2: "lastByterangeEnd (stateAfter fl ?p2) = add64 o1 (Count r1)"
      using end_after_segment [OF u1 q2 s1] r1 by simp
    have s3: "currentByterange (stateAfter fl ?p3) =
                Some (if Offset r2 = 0 \<and> 0 < add64 o1 (Count r1)
                      then r2\<lparr>Offset := add64 o1 (Count r1)\<rparr> else r2)"
      using byterange_after_tag(1) [OF b2 p2 q3, of fl ?p2] s2 by simp
    have c1: "track_children ?tr ! length (filter isURILine bpre) =
                createClip fl (URI u1) (currentDuration (stateAfter fl ?p1))
                  (currentTitle (stateAfter fl ?p1)) (Some ?r1)
                  (mapURI (stateAfter fl ?p1)) (mapByterange (stateAfter fl ?p1))
                  (currentKey (stateAfter fl ?p1)) (currentProgramDateTime (stateAfter fl ?p1))
                  (discontinuityCount (stateAfter fl ?p1))"
      unfolding tc using segment_at [OF u1, of fl ?p1 "m2 @ b2 # m3 @ u2 # bpost"]
      unfolding e1 [symmetric] n1 s1 .
    have c2: "track_children ?tr ! (length (filter isURILine bpre) + 1) =
                createClip fl (URI u2) (currentDuration (stateAfter fl ?p3))
                  (currentTitle (stateAfter fl ?p3))
                  (Some (if Offset r2 = 0 \<and> 0 < add64 o1 (Count r1)
                      then r2\<lparr>Offset := add64 o1 (Count r1)\<rparr> else r2))
                  (mapURI (stateAfter fl ?p3)) (mapByterange (stateAfter fl ?p3))
                  (currentKey (stateAfter fl ?p3)) (currentProgramDateTime (stateAfter fl ?p3))
                  (discontinuityCount (stateAfter fl ?p3))"
      unfolding tc using segment_at [OF u2, of fl ?p3 bpost]
      unfolding e3 [symmetric] n3 s3 .
    have k1: "byteOffset (track_children ?tr ! length (filter isURILine bpre)) = Some o1"
      unfolding c1 using r1 by (simp add: createClip_byterange)
    have k2: "byteCount (track_children ?tr ! length (filter isURILine bpre)) = Some (Count r1)"
      unfolding c1 using r1 by (simp add: createClip_byterange)
    have k3: "byteCount (track_children ?tr ! (length (filter isURILine bpre) + 1)) =
                Some (Count r2)"
      unfolding c2 by (simp add: createClip_byterange)
    have k4: "byteOffset (track_children ?tr ! (length (filter isURILine bpre) + 1)) =
             Some (if Offset r2 = 0 \<and> 0 < add64 o1 (Count r1)
                   then add64 o1 (Count r1) else Offset r2)"
      unfolding c2 by (simp add: createClip_byterange)
    have k5: "inInt64 (o1 + Count r1) \<longrightarrow> add64 o1 (Count r1) = o1 + Count r1"
      by (simp add: add64_exact)
    show "byteOffset (track_children ?tr ! length (filter isURILine bpre)) = Some o1 \<and>
           byteCount (track_children ?tr ! length (filter isURILine bpre)) = Some (Count r1) \<and>
           byteCount (track_children ?tr ! (length (filter isURILine bpre) + 1)) = Some (Count r2) \<and>
           byteOffset (track_children ?tr ! (length (filter isURILine bpre) + 1)) =
             Some (if Offset r2 = 0 \<and> 0 < add64 o1 (Count r1)
                   then add64 o1 (Count r1) else Offset r2) \<and>
           (inInt64 (o1 + Count r1) \<longrightarrow> add64 o1 (Count r1) = o1 + Count r1)"
      by (intro conjI k1 k2 k3 k4 k5)
  qed
  show ?thesis
    by (rule exI [of _ ?tr]) (intro conjI tr r0 r1 r2 r3)
qed

lemma parse_byterange_example:
  "parsePlaylist (joinLines [''#EXTM3U'', ''#EXTINF:9.9,'', ''#EXT-X-BYTERANGE:534220@652'',
      ''segment.m4s'', ''#EXTINF:9.9,'', ''#EXT-X-BYTERANGE:535192'', ''segment.m4s'',
      ''#EXT-X-ENDLIST''])
   = Inr [tagEntry ''EXTM3U'' [], tagEntry ''EXTINF'' ''9.9,'',
          tagEntry ''EXT-X-BYTERANGE'' ''534220@652'', uriEntry ''segment.m4s'',
          tagEntry ''EXTINF'' ''9.9,'', tagEntry ''EXT-X-BYTERANGE'' ''535192'',
          uriEntry ''segment.m4s'', tagEntry ''EXT-X-ENDLIST'' []]"
  by (simp add: parsePlaylist_def joinLines_def eval_line_simps IsTag_def tagEntry_def uriEntry_def)

lemma state_byterange_example:
  "stateAfter textFloats [tagEntry ''EXTM3U'' [], tagEntry ''EXTINF'' ''9.9,''] =
   \<lparr>currentDuration = ''9.9'', currentTitle = [], currentByterange = None,
      currentKey = [], currentProgramDateTime = [],
      mapURI = [], mapByterange = None, lastByterangeEnd = 0, discontinuityCount = 0,
      hlsMetadata = [], trackChildren = []\<rparr>"
  "stateAfter textFloats [tagEntry ''EXTM3U'' [], tagEntry ''EXTINF'' ''9.9,'',
      tagEntry ''EXT-X-BYTERANGE'' ''534220@652''] =
   \<lparr>currentDuration = ''9.9'', currentTitle = [],
      currentByterange = Some \<lparr>Count = 534220, Offset = 652\<rparr>,
      currentKey = [], currentProgramDateTime = [],
      mapURI = [], mapByterange = None, lastByterangeEnd = 0, discontinuityCount = 0,
      hlsMetadata = [], trackChildren = []\<rparr>"
  by (simp_all add: stateAfter_def initialState_def decodeEntry_def IsTag_def tagEntry_def
      SplitN2_def eval_trim_simps eval_number_simps textFloats_def)

text \<open>
  C7 at the playlist of the test: a segment of 534220 bytes at offset 652, then a
  segment of 535192 bytes with no offset written, which starts at 534872.
\<close>

theorem contiguous_byterange_inference_witness:
  "\<exists>t tr. Decode textFloats (joinLines [''#EXTM3U'', ''#EXTINF:9.9,'',
        ''#EXT-X-BYTERANGE:534220@652'', ''segment.m4s'', ''#EXTINF:9.9,'',
        ''#EXT-X-BYTERANGE:535192'', ''segment.m4s'', ''#EXT-X-ENDLIST'']) = Inr t \<and>
     tracks t = [TrackChild tr] \<and> length (track_children tr) = 2 \<and>
     currentByterange (stateAfter textFloats
        [tagEntry ''EXTM3U'' [], tagEntry ''EXTINF'' ''9.9,'',
         tagEntry ''EXT-X-BYTERANGE'' ''534220@652'']) = Some \<lparr>Count = 534220, Offset = 652\<rparr> \<and>
     lastByterangeEnd (stateAfter textFloats
        [tagEntry ''EXTM3U'' [], tagEntry ''EXTINF'' ''9.9,'',
         tagEntry ''EXT-X-BYTERANGE'' ''534220@652'', uriEntry ''segment.m4s'']) = 534872 \<and>
     byteOffset (track_children tr ! 0) = Some 652 \<and>
     byteCount (track_children tr ! 0) = Some 534220 \<and>
     byteCount (track_children tr ! 1) = Some 535192 \<and>
     byteOffset (track_children tr ! 1) = Some 534872"
proof -
  let ?X = "joinLines [''#EXTM3U'', ''#EXTINF:9.9,'',
        ''#EXT-X-BYTERANGE:534220@652'', ''segment.m4s'', ''#EXTINF:9.9,'',
        ''#EXT-X-BYTERANGE:535192'', ''segment.m4s'', ''#EXT-X-ENDLIST'']"
  let ?m3u = "tagEntry ''EXTM3U'' []"
  let ?inf = "tagEntry ''EXTINF'' ''9.9,''"
  let ?b1 = "tagEntry ''EXT-X-BYTERANGE'' ''534220@652''"
  let ?b2 = "tagEntry ''EXT-X-BYTERANGE'' ''535192''"
  let ?u = "uriEntry ''segment.m4s''"
  let ?end = "tagEntry ''EXT-X-ENDLIST'' []"
  obtain t where t: "Decode textFloats ?X = Inr t"
    using decodeMediaPlaylist_total [of textFloats]
    by (auto simp add: Decode_def parse_byterange_example IsTag_def tagEntry_def uriEntry_def)
  have p1: "NewByterangeFromString (TrimSpace ''534220@652'') = Inr \<lparr>Count = 534220, Offset = 652\<rparr>"
    by (simp add: eval_trim_simps eval_number_simps)
  have p2: "NewByterangeFromString (TrimSpace ''535192'') = Inr \<lparr>Count = 535192, Offset = 0\<rparr>"
    by (simp add: eval_trim_simps eval_number_simps)
  have a: "add64 652 534220 = 534872" by (simp add: add64_def wrap64_def)
  from contiguous_byterange_inference [OF parse_byterange_example t,
      where pre = "[?m3u, ?inf]" and e = ?b1 and br = "\<lparr>Count = 534220, Offset = 652\<rparr>"
        and xpre = "[?m3u, ?inf, ?b1]" and x = ?u
        and bpre = "[?m3u, ?inf]" and ?b1.0 = ?b1 and ?m1.0 = "[]" and ?u1.0 = ?u
        and ?m2.0 = "[?inf]" and ?b2.0 = ?b2 and ?m3.0 = "[]" and ?u2.0 = ?u
        and bpost = "[?end]" and ?r1.0 = "\<lparr>Count = 534220, Offset = 652\<rparr>"
        and ?r2.0 = "\<lparr>Count = 535192, Offset = 0\<rparr>" and ?o1.0 = 652]
  have "\<exists>tr. tracks t = [TrackChild tr] \<and> length (track_children tr) = 2 \<and>
     currentByterange (stateAfter textFloats [?m3u, ?inf, ?b1]) =
       Some \<lparr>Count = 534220, Offset = 652\<rparr> \<and>
     lastByterangeEnd (stateAfter textFloats [?m3u, ?inf, ?b1, ?u]) = 534872 \<and>
     byteOffset (track_children tr ! 0) = Some 652 \<and>
     byteCount (track_children tr ! 0) = Some 534220 \<and>
     byteCount (track_children tr ! 1) = Some 535192 \<and>
     byteOffset (track_children tr ! 1) = Some 534872"
    unfolding state_byterange_example
    apply (simp add: p1 p2 a tagEntry_def uriEntry_def isURILine_def IsTag_def)
    apply (elim exE conjE)
    apply (intro exI conjI)
    apply (assumption | simp)+
    done
  then obtain tr where h: "tracks t = [TrackChild tr] \<and> length (track_children tr) = 2 \<and>
     currentByterange (stateAfter textFloats [?m3u, ?inf, ?b1]) =
       Some \<lparr>Count = 534220, Offset = 652\<rparr> \<and>
     lastByterangeEnd (stateAfter textFloats [?m3u, ?inf, ?b1, ?u]) = 534872 \<and>
     byteOffset (track_children tr ! 0) = Some 652 \<and>
     byteCount (track_children tr ! 0) = Some 534220 \<and>
     byteCount (track_children tr ! 1) = Some 535192 \<and>
     byteOffset (track_children tr ! 1) = Some 534872"
    by (rule exE)
  show ?thesis
    by (rule exI [of _ t], rule exI [of _ tr]) (rule conjI [OF t h])
qed

lemma parse_overflow_example:
  "parsePlaylist (joinLines [''#EXTM3U'', ''#EXTINF:9.9,'',
      ''#EXT-X-BYTERANGE:-1@-9223372036854775808'', ''segment.m4s'', ''#EXTINF:9.9,'',
      ''#EXT-X-BYTERANGE:5'', ''segment.m4s'', ''#EXT-X-ENDLIST''])
   = Inr [tagEntry ''EXTM3U'' [], tagEntry ''EXTINF'' ''9.9,'',
          tagEntry ''EXT-X-BYTERANGE'' ''-1@-9223372036854775808'', uriEntry ''segment.m4s'',
          tagEntry ''EXTINF'' ''9.9,'', tagEntry ''EXT-X-BYTERANGE'' ''5'',
          uriEntry ''segment.m4s'', tagEntry ''EXT-X-ENDLIST'' []]"
  by (simp add: parsePlaylist_def joinLines_def eval_line_simps IsTag_def tagEntry_def uriEntry_def)

lemma parse_overflow_tags:
  "NewByterangeFromString (TrimSpace ''-1@-9223372036854775808'') =
     Inr \<lparr>Count = - 1, Offset = - 9223372036854775808\<rparr>"
  "NewByterangeFromString (TrimSpace ''5'') = Inr \<lparr>Count = 5, Offset = 0\<rparr>"
  "NewByterangeFromString ''-1@-9223372036854775808'' =
     Inr \<lparr>Count = - 1, Offset = - 9223372036854775808\<rparr>"
  "NewByterangeFromString ''5'' = Inr \<lparr>Count = 5, Offset = 0\<rparr>"
  by (simp_all add: eval_trim_simps eval_number_simps)

lemma state_overflow_example:
  "stateAfter textFloats [tagEntry ''EXTM3U'' [], tagEntry ''EXTINF'' ''9.9,'',
      tagEntry ''EXT-X-BYTERANGE'' ''-1@-9223372036854775808'', uriEntry ''segment.m4s''] =
   \<lparr>currentDuration = ''0'', currentTitle = [], currentByterange = None,
      currentKey = [], currentProgramDateTime = [],
      mapURI = [], mapByterange = None, lastByterangeEnd = 9223372036854775807,
      discontinuityCount = 0, hlsMetadata = [],
      trackChildren = [createClip textFloats ''segment.m4s'' ''9.9'' []
         (Some \<lparr>Count = - 1, Offset = - 9223372036854775808\<rparr>) [] None [] [] 0]\<rparr>"
  by (simp add: stateAfter_def initialState_def decodeEntry_def IsTag_def tagEntry_def
      uriEntry_def SplitN2_def eval_trim_simps parse_overflow_tags(3,4) Let_def
      add64_def wrap64_def textFloats_def)

lemma segments_overflow_example:
  "trackChildren (stateAfter textFloats [tagEntry ''EXTM3U'' [], tagEntry ''EXTINF'' ''9.9,'',
      tagEntry ''EXT-X-BYTERANGE'' ''-1@-9223372036854775808'', uriEntry ''segment.m4s'',
      tagEntry ''EXTINF'' ''9.9,'', tagEntry ''EXT-X-BYTERANGE'' ''5'',
      uriEntry ''segment.m4s'', tagEntry ''EXT-X-ENDLIST'' []]) =
   [createClip textFloats ''segment.m4s'' ''9.9'' []
         (Some \<lparr>Count = - 1, Offset = - 9223372036854775808\<rparr>) [] None [] [] 0,
    createClip textFloats ''segment.m4s'' ''9.9'' []
         (Some \<lparr>Count = 5, Offset = 9223372036854775807\<rparr>) [] None [] [] 0]"
proof -
  have "stateAfter textFloats ([tagEntry ''EXTM3U'' [], tagEntry ''EXTINF'' ''9.9,'',
      tagEntry ''EXT-X-BYTERANGE'' ''-1@-9223372036854775808'', uriEntry ''segment.m4s''] @
      [tagEntry ''EXTINF'' ''9.9,'', tagEntry ''EXT-X-BYTERANGE'' ''5'',
      uriEntry ''segment.m4s'', tagEntry ''EXT-X-ENDLIST'' []]) =
    decodeLoop textFloats (stateAfter textFloats [tagEntry ''EXTM3U'' [], tagEntry ''EXTINF'' ''9.9,'',
      tagEntry ''EXT-X-BYTERANGE'' ''-1@-9223372036854775808'', uriEntry ''segment.m4s''])
      [tagEntry ''EXTINF'' ''9.9,'', tagEntry ''EXT-X-BYTERANGE'' ''5'',
      uriEntry ''segment.m4s'', tagEntry ''EXT-X-ENDLIST'' []]"
    by (rule stateAfter_append)
  then show ?thesis
    unfolding state_overflow_example
    by (simp add: decodeEntry_def IsTag_def tagEntry_def
      uriEntry_def SplitN2_def eval_trim_simps parse_overflow_tags(3,4) Let_def
      textFloats_def)
qed

text \<open>
  C7 as stated fails where offset plus count leaves the \<open>int64\<close> range: after a
  segment of count -1 at offset \<open>-2^63\<close>, \<open>lastByterangeEnd\<close> is \<open>2^63 - 1\<close>,
  which is positive; the next tag parses with offset 0, and its segment gets the
  offset \<open>2^63 - 1\<close>, which is not the first offset plus the first count.
\<close>

theorem contiguous_byterange_inference_counterexample:
  "NewByterangeFromString (TrimSpace ''5'') = Inr \<lparr>Count = 5, Offset = 0\<rparr> \<and>
   lastByterangeEnd (stateAfter textFloats [tagEntry ''EXTM3U'' [], tagEntry ''EXTINF'' ''9.9,'',
      tagEntry ''EXT-X-BYTERANGE'' ''-1@-9223372036854775808'', uriEntry ''segment.m4s'']) =
     9223372036854775807 \<and>
   map byteOffset (segmentsOf (Decode textFloats (joinLines [''#EXTM3U'', ''#EXTINF:9.9,'',
      ''#EXT-X-BYTERANGE:-1@-9223372036854775808'', ''segment.m4s'', ''#EXTINF:9.9,'',
      ''#EXT-X-BYTERANGE:5'', ''segment.m4s'', ''#EXT-X-ENDLIST'']))) =
     [Some (- 9223372036854775808), Some 9223372036854775807] \<and>
   map byteCount (segmentsOf (Decode textFloats (joinLines [''#EXTM3U'', ''#EXTINF:9.9,'',
      ''#EXT-X-BYTERANGE:-1@-9223372036854775808'', ''segment.m4s'', ''#EXTINF:9.9,'',
      ''#EXT-X-BYTERANGE:5'', ''segment.m4s'', ''#EXT-X-ENDLIST'']))) =
     [Some (- 1), Some 5] \<and>
   (- 9223372036854775808 :: int) + (- 1) \<noteq> 9223372036854775807"
proof -
  have d: "segmentsOf (Decode textFloats (joinLines [''#EXTM3U'', ''#EXTINF:9.9,'',
      ''#EXT-X-BYTERANGE:-1@-9223372036854775808'', ''segment.m4s'', ''#EXTINF:9.9,'',
      ''#EXT-X-BYTERANGE:5'', ''segment.m4s'', ''#EXT-X-ENDLIST''])) =
    trackChildren (stateAfter textFloats [tagEntry ''EXTM3U'' [], tagEntry ''EXTINF'' ''9.9,'',
      tagEntry ''EXT-X-BYTERANGE'' ''-1@-9223372036854775808'', uriEntry ''segment.m4s'',
      tagEntry ''EXTINF'' ''9.9,'', tagEntry ''EXT-X-BYTERANGE'' ''5'',
      uriEntry ''segment.m4s'', tagEntry ''EXT-X-ENDLIST'' []])"
    unfolding Decode_def parse_overflow_example stateAfter_def
    by (simp add: segmentsOf_def decodeMediaPlaylist_def Let_def IsTag_def tagEntry_def uriEntry_def)
  show ?thesis
    unfolding d segments_overflow_example state_overflow_example
    by (simp add: parse_overflow_tags createClip_byterange)
qed

section \<open>Attribute lists: the example in every order\<close>

lemmas eval_attr_simps =
  ParseAttributeList_def parseAttributeLoop.simps patterns_def reQuoted_def reResolution_def
  reHex_def reFloat_def reEnum_def matchKey_def isWord_def isDigit_def isUpper_def isLower_def
  isHexDigit_def isEnumChar_def TrimPrefix_def Index_def Let_def

lemma parse_example_order:
  "ParseAttributeList ''URI=\"init.mp4\",BYTERANGE=\"652@0\",BANDWIDTH=1280000,RESOLUTION=1920x1080''
     = [(''URI'', ''init.mp4''), (''BYTERANGE'', ''652@0''), (''BANDWIDTH'', ''1280000''),
        (''RESOLUTION'', ''1920x1080'')]"
  by (simp add: eval_attr_simps eval_trim_simps)


lemma inserts_hd: "x # ys \<in> set (inserts x ys)"
  by (cases ys) auto

lemma inserts_mem: "p1 @ x # p2 \<in> set (inserts x (p1 @ p2))"
  by (induction p1) (auto simp add: inserts_hd)

lemma reorderings_complete: "mset p = mset xs \<Longrightarrow> p \<in> set (reorderings xs)"
proof (induction xs arbitrary: p)
  case Nil
  then show ?case by simp
next
  case (Cons x xs)
  have "x \<in># mset p" using Cons.prems by simp
  then have "x \<in> set p" by simp
  then obtain p1 p2 where p: "p = p1 @ x # p2" by (auto dest: split_list)
  with Cons.prems have "mset (p1 @ p2) = mset xs" by simp
  then have "p1 @ p2 \<in> set (reorderings xs)" by (rule Cons.IH)
  with p show ?case using inserts_mem [of p1 x p2] by auto
qed

lemma example_recovered_orders:
  "exampleRecovered (ParseAttributeList ''URI=\"init.mp4\",BYTERANGE=\"652@0\",BANDWIDTH=1280000,RESOLUTION=1920x1080'')"
  "exampleRecovered (ParseAttributeList ''URI=\"init.mp4\",BYTERANGE=\"652@0\",RESOLUTION=1920x1080,BANDWIDTH=1280000'')"
  "exampleRecovered (ParseAttributeList ''URI=\"init.mp4\",BANDWIDTH=1280000,BYTERANGE=\"652@0\",RESOLUTION=1920x1080'')"
  "exampleRecovered (ParseAttributeList ''URI=\"init.mp4\",BANDWIDTH=1280000,RESOLUTION=1920x1080,BYTERANGE=\"652@0\"'')"
  "exampleRecovered (ParseAttributeList ''URI=\"init.mp4\",RESOLUTION=1920x1080,BYTERANGE=\"652@0\",BANDWIDTH=1280000'')"
  "exampleRecovered (ParseAttributeList ''URI=\"init.mp4\",RESOLUTION=1920x1080,BANDWIDTH=1280000,BYTERANGE=\"652@0\"'')"
  "exampleRecovered (ParseAttributeList ''BYTERANGE=\"652@0\",URI=\"init.mp4\",BANDWIDTH=1280000,RESOLUTION=1920x1080'')"
  "exampleRecovered (ParseAttributeList ''BYTERANGE=\"652@0\",URI=\"init.mp4\",RESOLUTION=1920x1080,BANDWIDTH=1280000'')"
  "exampleRecovered (ParseAttributeList ''BYTERANGE=\"652@0\",BANDWIDTH=1280000,URI=\"init.mp4\",RESOLUTION=1920x1080'')"
  "exampleRecovered (ParseAttributeList ''BYTERANGE=\"652@0\",BANDWIDTH=1280000,RESOLUTION=1920x1080,URI=\"init.mp4\"'')"
  "exampleRecovered (ParseAttributeList ''BYTERANGE=\"652@0\",RESOLUTION=1920x1080,URI=\"init.mp4\",BANDWIDTH=1280000'')"
  "exampleRecovered (ParseAttributeList ''BYTERANGE=\"652@0\",RESOLUTION=1920x1080,BANDWIDTH=1280000,URI=\"init.mp4\"'')"
  "exampleRecovered (ParseAttributeList ''BANDWIDTH=1280000,URI=\"init.mp4\",BYTERANGE=\"652@0\",RESOLUTION=1920x1080'')"
  "exampleRecovered (ParseAttributeList ''BANDWIDTH=1280000,URI=\"init.mp4\",RESOLUTION=1920x1080,BYTERANGE=\"652@0\"'')"
  "exampleRecovered (ParseAttributeList ''BANDWIDTH=1280000,BYTERANGE=\"652@0\",URI=\"init.mp4\",RESOLUTION=1920x1080'')"
  "exampleRecovered (ParseAttributeList ''BANDWIDTH=1280000,BYTERANGE=\"652@0\",RESOLUTION=1920x1080,URI=\"init.mp4\"'')"
  "exampleRecovered (ParseAttributeList ''BANDWIDTH=1280000,RESOLUTION=1920x1080,URI=\"init.mp4\",BYTERANGE=\"652@0\"'')"
  "exampleRecovered (ParseAttributeList ''BANDWIDTH=1280000,RESOLUTION=1920x1080,BYTERANGE=\"652@0\",URI=\"init.mp4\"'')"
  "exampleRecovered (ParseAttributeList ''RESOLUTION=1920x1080,URI=\"init.mp4\",BYTERANGE=\"652@0\",BANDWIDTH=1280000'')"
  "exampleRecovered (ParseAttributeList ''RESOLUTION=1920x1080,URI=\"init.mp4\",BANDWIDTH=1280000,BYTERANGE=\"652@0\"'')"
  "exampleRecovered (ParseAttributeList ''RESOLUTION=1920x1080,BYTERANGE=\"652@0\",URI=\"init.mp4\",BANDWIDTH=1280000'')"
  "exampleRecovered (ParseAttributeList ''RESOLUTION=1920x1080,BYTERANGE=\"652@0\",BANDWIDTH=1280000,URI=\"init.mp4\"'')"
  "exampleRecovered (ParseAttributeList ''RESOLUTION=1920x1080,BANDWIDTH=1280000,URI=\"init.mp4\",BYTERANGE=\"652@0\"'')"
  "exampleRecovered (ParseAttributeList ''RESOLUTION=1920x1080,BANDWIDTH=1280000,BYTERANGE=\"652@0\",URI=\"init.mp4\"'')"
  by (simp_all add: eval_attr_simps eval_trim_simps exampleRecovered_def Get_def GetInt_def
      Atoi_def ParseInt_def ParseUint_def digitVal_def maxUint64_def insert_commute)

lemma example_recovered_all:
  "\<forall>q \<in> set (reorderings exampleAttributes). exampleRecovered (ParseAttributeList (Join q '',''))"
  by (simp add: exampleAttributes_def example_recovered_orders)

text \<open>
  Claim C8 (attribute parser completeness). For the four attributes of the example,
  joined by commas in the given order or in any other: parsing recovers the four keys
  \<open>URI\<close>, \<open>BYTERANGE\<close>, \<open>BANDWIDTH\<close> and \<open>RESOLUTION\<close> and no other, with the
  values \<open>init.mp4\<close>, \<open>652@0\<close>, \<open>1280000\<close> and \<open>1920x1080\<close> (the quoted ones
  without their quotes), and \<open>GetInt\<close> of \<open>BANDWIDTH\<close> returns 1280000 and no error.
\<close>

theorem attribute_list_any_order:
  "mset p = mset exampleAttributes \<Longrightarrow> attrs = ParseAttributeList (Join p '','') \<Longrightarrow>
     Get attrs ''URI'' = ''init.mp4'' \<and> Get attrs ''BYTERANGE'' = ''652@0'' \<and>
     Get attrs ''BANDWIDTH'' = ''1280000'' \<and> Get attrs ''RESOLUTION'' = ''1920x1080'' \<and>
     set (map fst attrs) = {''URI'', ''BYTERANGE'', ''BANDWIDTH'', ''RESOLUTION''} \<and>
     length attrs = 4 \<and> GetInt attrs ''BANDWIDTH'' = Inr 1280000"
proof -
  assume m: "mset p = mset exampleAttributes" and a: "attrs = ParseAttributeList (Join p '','')"
  from m have "p \<in> set (reorderings exampleAttributes)" by (rule reorderings_complete)
  with example_recovered_all have "exampleRecovered attrs" unfolding a by blast
  then show ?thesis by (simp add: exampleRecovered_def)
qed

text \<open>
  C8 at one reordering of the example.
\<close>

theorem attribute_list_any_order_witness:
  "mset [''BANDWIDTH=1280000'', ''URI=\"init.mp4\"'', ''RESOLUTION=1920x1080'', ''BYTERANGE=\"652@0\"'']
     = mset exampleAttributes \<and>
   Get (ParseAttributeList ''BANDWIDTH=1280000,URI=\"init.mp4\",RESOLUTION=1920x1080,BYTERANGE=\"652@0\"'')
     ''URI'' = ''init.mp4'' \<and>
   Get (ParseAttributeList ''BANDWIDTH=1280000,URI=\"init.mp4\",RESOLUTION=1920x1080,BYTERANGE=\"652@0\"'')
     ''BYTERANGE'' = ''652@0'' \<and>
   Get (ParseAttributeList ''BANDWIDTH=1280000,URI=\"init.mp4\",RESOLUTION=1920x1080,BYTERANGE=\"652@0\"'')
     ''RESOLUTION'' = ''1920x1080'' \<and>
   GetInt (ParseAttributeList ''BANDWIDTH=1280000,URI=\"init.mp4\",RESOLUTION=1920x1080,BYTERANGE=\"652@0\"'')
     ''BANDWIDTH'' = Inr 1280000"
proof -
  have m: "mset [''BANDWIDTH=1280000'', ''URI=\"init.mp4\"'', ''RESOLUTION=1920x1080'', ''BYTERANGE=\"652@0\"'']
     = mset exampleAttributes"
    by (simp add: exampleAttributes_def)
  have j: "Join [''BANDWIDTH=1280000'', ''URI=\"init.mp4\"'', ''RESOLUTION=1920x1080'', ''BYTERANGE=\"652@0\"''] '',''
     = ''BANDWIDTH=1280000,URI=\"init.mp4\",RESOLUTION=1920x1080,BYTERANGE=\"652@0\"''"
    by simp
  show ?thesis
    using attribute_list_any_order [OF m refl] m unfolding j by simp
qed

section \<open>Encoder: linked audio tracks\<close>



















lemmas eval_encoder_simps =
  streamInfBlock_def streamInfAttributes_def buildStreamInfAttributes_def linkAudio_def
  getStreamingMetadata_def getHLSMetadata_def getNamespace_def getStringOrDefault_def
  getIntOrDefault_def formatV_def AttributeList_String_def renderAttribute_def needsQuoting_def
  GetInt_def Get_def Atoi_def ParseInt_def ParseUint_def add64_def wrap64_def
  metadataNamespace_def streamingMetadataNamespace_def Let_def fmt_d_def digits.simps
  digitChar_values isDigit_def digitVal_def isUpper_def isLower_def maxUint64_def
  insertionOrder_def textFloats_def

lemma example_block:
  "streamInfBlock insertionOrder textFloats [exampleAudioTrack] exampleVideoTrack =
     ''#EXT-X-STREAM-INF:BANDWIDTH=135801,CODECS=\"avc1.4d401f,mp4a.40.2\",FRAME-RATE=23.976,RESOLUTION=1920x1080,AUDIO=audio1''
       @ [CHR 0x0A] @ ''v1/prog_index.m3u8'' @ [CHR 0x0A, CHR 0x0A]"
  by (simp add: exampleAudioTrack_def exampleVideoTrack_def exampleVideoStreaming_def
      eval_encoder_simps)




end
